theory Spec2Isabelle
  imports Main "HOL-Library.Word" "HOL-Library.Log_Nat" "HOL-Library.Signed_Division"
begin

unbundle bit_operations_syntax

section \<open>Values, errors and files\<close>

text \<open>
  The package \<open>icrypto\<close> (file \<open>pulsar-jwt.go\<close>) is modelled function by function.
  A Go \<open>[]byte\<close> is a list of 8-bit words, a Go \<open>string\<close> is an Isabelle \<open>string\<close>
  (a list of bytes as well). A Go function returning \<open>(T, error)\<close> returns a value of
  \<open>error + T\<close>; a run-time panic is the error value \<open>Panic\<close>, which no Go caller
  of the package receives as a result: the goroutine unwinds instead.
\<close>

type_synonym byte = "8 word"
type_synonym bytes = "byte list"

datatype panic =
    NilPointerDereference
  | InterfaceConversion string

datatype error =
    OsError string
  | EOF
  | UndeterminedFormat
  | UnsupportedFormat
  | LibError string
  | NotRSAPrivateKey string
  | NotRSAPublicKey string
  | InvalidToken
  | MissingSubjects
  | IncorrectSub
  | InvalidDuration string
  | TimeInvalidDuration string
  | TimeMissingUnit string
  | TimeUnknownUnit string string
  | InvalidSigningMethod string
  | Panic panic

text \<open>
  The file system as the package reads it: a path that \<open>os.Open\<close> cannot open is
  \<open>None\<close>, any other path holds the bytes of a regular file, which are read without an
  I/O error.
\<close>

type_synonym filesystem = "string \<Rightarrow> bytes option"

section \<open>The format detector\<close>

text \<open>
  \<open>binary.BigEndian.Uint32\<close>: the first four bytes, most significant first; it panics
  on a shorter slice (\<open>None\<close>), which \<open>fileFormat\<close> never passes.
\<close>

fun BigEndian_Uint32 :: "bytes \<Rightarrow> 32 word option" where
  "BigEndian_Uint32 (b0 # b1 # b2 # b3 # _) =
     Some (ucast b3 OR push_bit 8 (ucast b2) OR push_bit 16 (ucast b1) OR push_bit 24 (ucast b0))"
| "BigEndian_Uint32 _ = None"

text \<open>
  \<open>reader.Peek(4)\<close> on a fresh \<open>bufio.Reader\<close> over the file: the first four bytes, or
  \<open>io.EOF\<close> when the file is shorter.
\<close>

definition Peek4 :: "bytes \<Rightarrow> error + bytes" where
  "Peek4 content = (if length content < 4 then Inl EOF else Inr (take 4 content))"

definition fileFormat :: "filesystem \<Rightarrow> string \<Rightarrow> error + string" where
  "fileFormat fs file =
     (case fs file of
        None \<Rightarrow> Inl (OsError file)
      | Some content \<Rightarrow>
          (case Peek4 content of
             Inl err \<Rightarrow> Inl err
           | Inr data \<Rightarrow>
               (case BigEndian_Uint32 data of
                  None \<Rightarrow> Inl (Panic NilPointerDereference)
                | Some magic \<Rightarrow>
                    if magic = 0x2D2D2D2D \<or> magic = 0x434f4e4e then Inr ''PEM''
                    else if magic AND 0xFFFF0000 = 0x30820000 then
                      (if magic AND 0x0000FF00 = 0x0300 then Inr ''DER'' else Inr ''PKCS12'')
                    else Inl UndeterminedFormat)))"

section \<open>Numbers of the Go run time\<close>

text \<open>
  \<open>int\<close> and \<open>int64\<close> are 64 bits wide (the package runs on a 64-bit platform); a
  value of either is an Isabelle \<open>int\<close>, and \<open>wrap64\<close> is the wrap-around of an
  arithmetic operation that leaves the range.
\<close>

definition wrap64 :: "int \<Rightarrow> int" where
  "wrap64 i = signed_take_bit 63 i"

text \<open>
  A \<open>float64\<close> is what IEEE 754 binary64 holds: a finite number, an infinity or a NaN.
  A finite value is kept as the rational number it is. Arithmetic on finite values
  computes the exact rational result and rounds it to the nearest binary64 number,
  ties to the even significand, as the hardware does. \<open>binary_exponent x\<close> is the
  \<open>e\<close> with \<open>2\<^sup>e \<le> x < 2\<^sup>e\<^sup>+\<^sup>1\<close> for a positive \<open>x\<close>; a binary64 number of that size is
  a multiple of \<open>2\<^sup>e\<^sup>-\<^sup>5\<^sup>2\<close>, and below \<open>2\<^sup>-\<^sup>1\<^sup>0\<^sup>2\<^sup>2\<close> the spacing stays that of the
  smallest normal numbers. Every operation of this package has a result far below the
  largest binary64 number, so rounding never overflows to an infinity.
\<close>

datatype float64 = Finite rat | PosInf | NegInf | NaN

definition binary_exponent :: "rat \<Rightarrow> int" where
  "binary_exponent x = (if 1 \<le> x then bitlen \<lfloor>x\<rfloor> - 1 else - bitlen (\<lceil>1 / x\<rceil> - 1))"

definition round_half_even :: "rat \<Rightarrow> int" where
  "round_half_even q =
     (let f = \<lfloor>q\<rfloor>; d = q - of_int f
      in if d < 1 / 2 then f else if 1 / 2 < d then f + 1 else if even f then f else f + 1)"

definition f64_round :: "rat \<Rightarrow> rat" where
  "f64_round x =
     (if x = 0 then 0
      else let ulp = 2 powi (max (binary_exponent \<bar>x\<bar>) (- 1022) - 52)
           in sgn x * of_int (round_half_even (\<bar>x\<bar> / ulp)) * ulp)"

text \<open>
  The conversion \<open>int64(f)\<close> and \<open>int(f)\<close> of a \<open>float64\<close>: the fraction is dropped
  (truncation towards zero). When the value does not fit (or is no number) the result
  is implementation-specific in Go; \<open>conv\<close> stands for what the platform yields.
\<close>

definition trunc :: "rat \<Rightarrow> int" where
  "trunc r = (if 0 \<le> r then \<lfloor>r\<rfloor> else \<lceil>r\<rceil>)"

definition float64_to_int64 :: "(float64 \<Rightarrow> int) \<Rightarrow> float64 \<Rightarrow> int" where
  "float64_to_int64 conv f =
     (case f of
        Finite r \<Rightarrow> if - (2 ^ 63) \<le> trunc r \<and> trunc r < 2 ^ 63 then trunc r else wrap64 (conv f)
      | _ \<Rightarrow> wrap64 (conv f))"

text \<open>
  A value of type \<open>interface{}\<close> with its dynamic type: the types a claim of a token
  can have, and \<open>GoOther\<close> with the name of any other type.
\<close>

datatype dyn =
    GoNil
  | GoBool bool
  | GoFloat64 float64
  | GoInt64 int
  | GoInt int
  | GoString string
  | GoOther string

fun type_name :: "dyn \<Rightarrow> string" where
  "type_name GoNil = ''nil''"
| "type_name (GoBool _) = ''bool''"
| "type_name (GoFloat64 _) = ''float64''"
| "type_name (GoInt64 _) = ''int64''"
| "type_name (GoInt _) = ''int''"
| "type_name (GoString _) = ''string''"
| "type_name (GoOther n) = n"

section \<open>Package time\<close>

text \<open>
  A \<open>time.Time\<close> is its wall clock reading: the seconds since January 1 of year 1 (an
  \<open>int64\<close>; \<open>unixToInternal\<close> of them precede 1970) and the nanoseconds within the
  second. \<open>time.Unix(sec, 0)\<close> adds \<open>unixToInternal\<close> in \<open>int64\<close> arithmetic; \<open>t.Unix()\<close>
  subtracts it. A \<open>time.Duration\<close> is an \<open>int64\<close> count of nanoseconds.
\<close>

record Time =
  wall_sec :: int
  wall_nsec :: int

definition unixToInternal :: int where
  "unixToInternal = 62135596800"

definition time_Unix :: "int \<Rightarrow> Time" where
  "time_Unix s = \<lparr>wall_sec = wrap64 (s + unixToInternal), wall_nsec = 0\<rparr>"

definition Time_Unix :: "Time \<Rightarrow> int" where
  "Time_Unix t = wrap64 (wall_sec t - unixToInternal)"

definition Nanosecond :: int where "Nanosecond = 1"
definition Microsecond :: int where "Microsecond = 1000 * Nanosecond"
definition Millisecond :: int where "Millisecond = 1000 * Microsecond"
definition Second :: int where "Second = 1000 * Millisecond"
definition Minute :: int where "Minute = 60 * Second"
definition Hour :: int where "Hour = 60 * Minute"

definition minDuration :: int where "minDuration = - (2 ^ 63)"
definition maxDuration :: int where "maxDuration = 2 ^ 63 - 1"

text \<open>
  \<open>t.Sub(u)\<close> is the duration \<open>t - u\<close>, and the largest or smallest duration when the
  difference does not fit. \<open>t.Add(d)\<close> moves the wall clock by \<open>d\<close>: Go's \<open>/\<close> and \<open>%\<close>
  truncate towards zero (\<open>sdiv\<close>, \<open>smod\<close>), and the nanoseconds are brought back into
  the second. The new second count is the exact sum; from a reading of the clock it is
  far from the ends of \<open>int64\<close>.
\<close>

definition Time_Sub :: "Time \<Rightarrow> Time \<Rightarrow> int" where
  "Time_Sub t u =
     (let d = (wall_sec t - wall_sec u) * Second + (wall_nsec t - wall_nsec u)
      in if d < minDuration then minDuration else if maxDuration < d then maxDuration else d)"

definition Time_Add :: "Time \<Rightarrow> int \<Rightarrow> Time" where
  "Time_Add t d =
     (let dsec = d sdiv 1000000000;
          nsec = wall_nsec t + d smod 1000000000
      in if 1000000000 \<le> nsec then \<lparr>wall_sec = wall_sec t + (dsec + 1), wall_nsec = nsec - 1000000000\<rparr>
         else if nsec < 0 then \<lparr>wall_sec = wall_sec t + (dsec - 1), wall_nsec = nsec + 1000000000\<rparr>
         else \<lparr>wall_sec = wall_sec t + dsec, wall_nsec = nsec\<rparr>)"

text \<open>
  \<open>d.Seconds()\<close>: the whole seconds and the nanoseconds left, each converted to
  \<open>float64\<close>, the nanoseconds divided by \<open>1e9\<close>, and the two added.
\<close>

definition Duration_Seconds :: "int \<Rightarrow> rat" where
  "Duration_Seconds d =
     (let sec = d sdiv Second; nsec = d smod Second
      in f64_round (f64_round (of_int sec) + f64_round (f64_round (of_int nsec) / 1000000000)))"

text \<open>
  A reading of the wall clock: the nanoseconds lie within the second, and the second
  count is that of a date after year 1 and far from the end of \<open>int64\<close>.
\<close>

definition clock_reading :: "Time \<Rightarrow> bool" where
  "clock_reading t =
     (0 \<le> wall_sec t \<and> wall_sec t < 2 ^ 62 \<and> 0 \<le> wall_nsec t \<and> wall_nsec t < 1000000000)"

section \<open>Keys and the libraries the package calls\<close>

text \<open>
  An RSA public key is its modulus and exponent; a private key holds its public key,
  the private exponent and the prime factors. What \<open>x509.ParsePKCS8PrivateKey\<close> and
  \<open>x509.ParsePKIXPublicKey\<close> return has type \<open>any\<close>: an RSA key, or a key of another
  algorithm, of which only the name of its Go type matters here.
\<close>

record rsa_PublicKey =
  rsa_N :: int
  rsa_E :: int

record rsa_PrivateKey =
  rsa_Public :: rsa_PublicKey
  rsa_D :: int
  rsa_Primes :: "int list"

datatype any_key =
    RSAPrivate rsa_PrivateKey
  | RSAPublic rsa_PublicKey
  | OtherKey string

fun key_type_name :: "any_key \<Rightarrow> string" where
  "key_type_name (RSAPrivate _) = ''*rsa.PrivateKey''"
| "key_type_name (RSAPublic _) = ''*rsa.PublicKey''"
| "key_type_name (OtherKey n) = n"

record pem_Block =
  pem_Type :: string
  pem_Headers :: "(string \<times> string) list"
  pem_Bytes :: bytes

datatype SigningMethod =
    RS256 | RS384 | RS512
  | HS256 | HS384 | HS512
  | ES256 | ES384 | ES512
  | PS256 | PS384 | PS512
  | SigningMethodNone

record Token =
  Method :: SigningMethod
  Header :: "string \<Rightarrow> dyn option"
  Claims :: "string \<Rightarrow> dyn option"
  Valid :: bool

text \<open>
  The functions of \<open>crypto/rsa\<close>, \<open>crypto/x509\<close>, \<open>encoding/pem\<close> and
  \<open>github.com/golang-jwt/jwt\<close> that the package calls are parameters of the model; every
  property below holds whatever they compute. \<open>rsa_GenerateKey\<close> is the outcome of
  \<open>rsa.GenerateKey(rand.Reader, bits)\<close> in the run considered, \<open>pem_Decode_found\<close> is
  \<open>pem.Decode\<close> on data that holds a \<open>-----BEGIN\<close> line, \<open>jwt_Parse\<close> is \<open>jwt.Parse\<close>
  with a key function that returns the given public key, and \<open>can_create\<close> tells
  whether \<open>os.Create\<close> succeeds on a path.
\<close>

record library =
  rsa_GenerateKey :: "nat \<Rightarrow> error + rsa_PrivateKey"
  rsa_Validate :: "rsa_PrivateKey \<Rightarrow> error option"
  x509_ParsePKCS8PrivateKey :: "bytes \<Rightarrow> error + any_key"
  x509_ParsePKIXPublicKey :: "bytes \<Rightarrow> error + any_key"
  x509_MarshalPKCS8PrivateKey :: "rsa_PrivateKey \<Rightarrow> error + bytes"
  x509_MarshalPKIXPublicKey :: "rsa_PublicKey \<Rightarrow> error + bytes"
  pem_Decode_found :: "bytes \<Rightarrow> pem_Block option \<times> bytes"
  jwt_SignedString :: "Token \<Rightarrow> rsa_PrivateKey \<Rightarrow> error + string"
  jwt_Parse :: "string \<Rightarrow> rsa_PublicKey \<Rightarrow> error + Token"
  can_create :: "string \<Rightarrow> bool"

section \<open>The key pair and its construction\<close>

record RSAKeyPair =
  PrivateKey :: rsa_PrivateKey
  PublicKey :: rsa_PublicKey
  PrivateKeyPKCS8Bytes :: bytes
  PublicKeyPKIXBytes :: bytes

definition bitSize :: nat where
  "bitSize = 2048"

definition newRSAKeyPair :: "library \<Rightarrow> rsa_PrivateKey \<Rightarrow> rsa_PublicKey \<Rightarrow> error + RSAKeyPair" where
  "newRSAKeyPair lib privateKey publicKey =
     (case x509_MarshalPKCS8PrivateKey lib privateKey of
        Inl err \<Rightarrow> Inl err
      | Inr privateKeyBytes \<Rightarrow>
          (case x509_MarshalPKIXPublicKey lib publicKey of
             Inl err \<Rightarrow> Inl err
           | Inr publicKeyBytes \<Rightarrow>
               Inr \<lparr>PrivateKey = privateKey,
                    PublicKey = publicKey,
                    PrivateKeyPKCS8Bytes = privateKeyBytes,
                    PublicKeyPKIXBytes = publicKeyBytes\<rparr>))"

definition NewRSAKeyPair :: "library \<Rightarrow> error + RSAKeyPair" where
  "NewRSAKeyPair lib =
     (case rsa_GenerateKey lib bitSize of
        Inl err \<Rightarrow> Inl err
      | Inr privateKey \<Rightarrow>
          (case rsa_Validate lib privateKey of
             Some err \<Rightarrow> Inl err
           | None \<Rightarrow> newRSAKeyPair lib privateKey (rsa_Public privateKey)))"

section \<open>The key codec\<close>

definition ParseX509PKCS8PrivateKey :: "library \<Rightarrow> bytes \<Rightarrow> error + rsa_PrivateKey" where
  "ParseX509PKCS8PrivateKey lib data =
     (case x509_ParsePKCS8PrivateKey lib data of
        Inl err \<Rightarrow> Inl err
      | Inr key \<Rightarrow>
          (case key of
             RSAPrivate rsaPrivate \<Rightarrow> Inr rsaPrivate
           | _ \<Rightarrow> Inl (NotRSAPrivateKey (key_type_name key))))"

definition ParseX509PKIXPublicKey :: "library \<Rightarrow> bytes \<Rightarrow> error + rsa_PublicKey" where
  "ParseX509PKIXPublicKey lib data =
     (case x509_ParsePKIXPublicKey lib data of
        Inl err \<Rightarrow> Inl err
      | Inr publicKeyImported \<Rightarrow>
          (case publicKeyImported of
             RSAPublic rsaPub \<Rightarrow> Inr rsaPub
           | _ \<Rightarrow> Inl (NotRSAPublicKey (key_type_name publicKeyImported))))"

text \<open>
  \<open>pem.Decode\<close> looks for the line that starts a block: the data begins with
  \<open>-----BEGIN\<close> followed by a space, or holds that text after a line feed. Without one
  it returns a nil block and the data.
\<close>

definition bytes_of :: "string \<Rightarrow> bytes" where
  "bytes_of s = map of_char s"

definition string_of :: "bytes \<Rightarrow> string" where
  "string_of b = map (\<lambda>w. char_of (unat w)) b"

definition HasPrefix :: "'a list \<Rightarrow> 'a list \<Rightarrow> bool" where
  "HasPrefix s p = (take (length p) s = p)"

fun Contains :: "'a list \<Rightarrow> 'a list \<Rightarrow> bool" where
  "Contains [] p = (p = [])"
| "Contains (x # xs) p = (HasPrefix (x # xs) p \<or> Contains xs p)"

definition pemStart :: bytes where
  "pemStart = 0x0A # bytes_of ''-----BEGIN ''"

definition pem_Decode :: "library \<Rightarrow> bytes \<Rightarrow> pem_Block option \<times> bytes" where
  "pem_Decode lib data =
     (if HasPrefix data (tl pemStart) \<or> Contains data pemStart
      then pem_Decode_found lib data
      else (None, data))"

text \<open>
  \<open>decodePEM\<close> reads the whole file and takes the \<open>Bytes\<close> of the block that
  \<open>pem.Decode\<close> returns, without looking whether there is one: on a nil block the field
  access is a nil pointer dereference.
\<close>

definition decodePEM :: "library \<Rightarrow> filesystem \<Rightarrow> string \<Rightarrow> error + bytes" where
  "decodePEM lib fs pemFilePath =
     (case fs pemFilePath of
        None \<Rightarrow> Inl (OsError pemFilePath)
      | Some pembytes \<Rightarrow>
          (case pem_Decode lib pembytes of
             (None, _) \<Rightarrow> Inl (Panic NilPointerDereference)
           | (Some data, _) \<Rightarrow> Inr (pem_Bytes data)))"

definition readPK12 :: "filesystem \<Rightarrow> string \<Rightarrow> error + bytes" where
  "readPK12 fs file =
     (case fs file of
        None \<Rightarrow> Inl (OsError file)
      | Some content \<Rightarrow> Inr content)"

text \<open>
  \<open>getDataFromKeyFile\<close> switches on the answer of the detector. (For \<open>PKCS12\<close> it
  also prints a line on the standard output, which is no part of its result.)
\<close>

definition getDataFromKeyFile :: "library \<Rightarrow> filesystem \<Rightarrow> string \<Rightarrow> error + bytes" where
  "getDataFromKeyFile lib fs file =
     (case fileFormat fs file of
        Inl err \<Rightarrow> Inl err
      | Inr format \<Rightarrow>
          if format = ''PEM'' then decodePEM lib fs file
          else if format = ''PKCS12'' then readPK12 fs file
          else Inl UnsupportedFormat)"

definition getPrivateKey :: "library \<Rightarrow> filesystem \<Rightarrow> string \<Rightarrow> error + rsa_PrivateKey" where
  "getPrivateKey lib fs file =
     (case getDataFromKeyFile lib fs file of
        Inl err \<Rightarrow> Inl err
      | Inr data \<Rightarrow> ParseX509PKCS8PrivateKey lib data)"

definition getPublicKey :: "library \<Rightarrow> filesystem \<Rightarrow> string \<Rightarrow> error + rsa_PublicKey" where
  "getPublicKey lib fs file =
     (case getDataFromKeyFile lib fs file of
        Inl err \<Rightarrow> Inl err
      | Inr data \<Rightarrow> ParseX509PKIXPublicKey lib data)"

definition LoadRSAKeyPair :: "library \<Rightarrow> filesystem \<Rightarrow> string \<Rightarrow> string \<Rightarrow> error + RSAKeyPair" where
  "LoadRSAKeyPair lib fs privateKeyPath publicKeyPath =
     (case getPrivateKey lib fs privateKeyPath of
        Inl err \<Rightarrow> Inl err
      | Inr privateKey \<Rightarrow>
          (case getPublicKey lib fs publicKeyPath of
             Inl err \<Rightarrow> Inl err
           | Inr publicKey \<Rightarrow> newRSAKeyPair lib privateKey publicKey))"

definition LoadRSAKeyPairFromBase64 :: "library \<Rightarrow> bytes \<Rightarrow> bytes \<Rightarrow> error + RSAKeyPair" where
  "LoadRSAKeyPairFromBase64 lib privateKeyBase64 publicKeyBase64 =
     (case ParseX509PKCS8PrivateKey lib privateKeyBase64 of
        Inl err \<Rightarrow> Inl err
      | Inr privateKey \<Rightarrow>
          (case ParseX509PKIXPublicKey lib publicKeyBase64 of
             Inl err \<Rightarrow> Inl err
           | Inr publicKey \<Rightarrow> newRSAKeyPair lib privateKey publicKey))"

section \<open>Exporting the keys\<close>

text \<open>
  \<open>base64.StdEncoding.EncodeToString\<close>: three bytes become four characters of the
  standard alphabet, and the last group is padded with \<open>=\<close>.
\<close>

definition encodeStd :: string where
  "encodeStd = ''ABCDEFGHIJKLMNOPQRSTUVWXYZabcdefghijklmnopqrstuvwxyz0123456789+/''"

definition b64char :: "byte \<Rightarrow> char" where
  "b64char i = encodeStd ! unat i"

fun EncodeToString :: "bytes \<Rightarrow> string" where
  "EncodeToString [] = []"
| "EncodeToString [a] =
     [b64char (drop_bit 2 a), b64char (push_bit 4 (a AND 3)), CHR ''='', CHR ''='']"
| "EncodeToString [a, b] =
     [b64char (drop_bit 2 a), b64char (push_bit 4 (a AND 3) OR drop_bit 4 b),
      b64char (push_bit 2 (b AND 15)), CHR ''='']"
| "EncodeToString (a # b # c # rest) =
     b64char (drop_bit 2 a) # b64char (push_bit 4 (a AND 3) OR drop_bit 4 b)
       # b64char (push_bit 2 (b AND 15) OR drop_bit 6 c) # b64char (c AND 63)
       # EncodeToString rest"

text \<open>
  \<open>pem.EncodeToMemory\<close> of a block without headers: the \<open>BEGIN\<close> line with the type,
  the base64 text in lines of 64 characters, and the \<open>END\<close> line.
\<close>

fun lines64 :: "string \<Rightarrow> string" where
  "lines64 s = (if s = [] then [] else take 64 s @ [CHR 0x0A] @ lines64 (drop 64 s))"

definition pem_EncodeToMemory :: "string \<Rightarrow> bytes \<Rightarrow> string" where
  "pem_EncodeToMemory typ b =
     ''-----BEGIN '' @ typ @ ''-----'' @ [CHR 0x0A]
       @ lines64 (EncodeToString b)
       @ ''-----END '' @ typ @ ''-----'' @ [CHR 0x0A]"

definition ExportRSAPublicKeyAsPEM :: "RSAKeyPair \<Rightarrow> string" where
  "ExportRSAPublicKeyAsPEM keys = pem_EncodeToMemory [] (PublicKeyPKIXBytes keys)"

definition ExportRSAPrivateKeyAsPEM :: "RSAKeyPair \<Rightarrow> string" where
  "ExportRSAPrivateKeyAsPEM keys = pem_EncodeToMemory [] (PrivateKeyPKCS8Bytes keys)"

definition ExportPrivateKeyBinaryBase64 :: "RSAKeyPair \<Rightarrow> string" where
  "ExportPrivateKeyBinaryBase64 keys = EncodeToString (PrivateKeyPKCS8Bytes keys)"

definition ExportPublicKeyBinaryBase64 :: "RSAKeyPair \<Rightarrow> string" where
  "ExportPublicKeyBinaryBase64 keys = EncodeToString (PublicKeyPKIXBytes keys)"

text \<open>
  The two file exports create (or truncate) the file and write the bytes as they are;
  they return the error of \<open>os.Create\<close>, if any, and the file system they leave.
\<close>

definition ExportRSAPublicKeyBinaryFile ::
  "library \<Rightarrow> filesystem \<Rightarrow> RSAKeyPair \<Rightarrow> string \<Rightarrow> error option \<times> filesystem" where
  "ExportRSAPublicKeyBinaryFile lib fs keys filePath =
     (if can_create lib filePath then (None, fs(filePath \<mapsto> PublicKeyPKIXBytes keys))
      else (Some (OsError filePath), fs))"

definition ExportRSAPrivateKeyBinaryFile ::
  "library \<Rightarrow> filesystem \<Rightarrow> RSAKeyPair \<Rightarrow> string \<Rightarrow> error option \<times> filesystem" where
  "ExportRSAPrivateKeyBinaryFile lib fs keys filePath =
     (if can_create lib filePath then (None, fs(filePath \<mapsto> PrivateKeyPKCS8Bytes keys))
      else (Some (OsError filePath), fs))"

section \<open>Issuing and verifying tokens\<close>

text \<open>
  \<open>jwt.New(method)\<close> asks the method for its name to fill the header; the claims start
  empty. With a nil method the call is a nil pointer dereference.
\<close>

fun Alg :: "SigningMethod \<Rightarrow> string" where
  "Alg RS256 = ''RS256''" | "Alg RS384 = ''RS384''" | "Alg RS512 = ''RS512''"
| "Alg HS256 = ''HS256''" | "Alg HS384 = ''HS384''" | "Alg HS512 = ''HS512''"
| "Alg ES256 = ''ES256''" | "Alg ES384 = ''ES384''" | "Alg ES512 = ''ES512''"
| "Alg PS256 = ''PS256''" | "Alg PS384 = ''PS384''" | "Alg PS512 = ''PS512''"
| "Alg SigningMethodNone = ''none''"

definition jwt_New :: "SigningMethod \<Rightarrow> Token" where
  "jwt_New method =
     \<lparr>Method = method,
      Header = [''typ'' \<mapsto> GoString ''JWT'', ''alg'' \<mapsto> GoString (Alg method)],
      Claims = Map.empty,
      Valid = False\<rparr>"

text \<open>
  \<open>GenerateToken\<close> reads the clock twice, first for \<open>exp\<close> and then for \<open>iat\<close>:
  \<open>now1\<close> and \<open>now2\<close> are the two readings.
\<close>

definition GenerateToken ::
  "library \<Rightarrow> Time \<Rightarrow> Time \<Rightarrow> RSAKeyPair \<Rightarrow> string \<Rightarrow> int \<Rightarrow> SigningMethod option \<Rightarrow> error + string" where
  "GenerateToken lib now1 now2 keys userSubject timeDuration signingMethod =
     (case signingMethod of
        None \<Rightarrow> Inl (Panic NilPointerDereference)
      | Some method \<Rightarrow>
          (let token = jwt_New method;
               token =
                 (if 0 < timeDuration
                  then token\<lparr>Claims :=
                         [''exp'' \<mapsto> GoInt64 (Time_Unix (Time_Add now1 timeDuration)),
                          ''iat'' \<mapsto> GoInt64 (Time_Unix now2),
                          ''sub'' \<mapsto> GoString userSubject]\<rparr>
                  else token\<lparr>Claims := [''sub'' \<mapsto> GoString userSubject]\<rparr>)
           in case jwt_SignedString lib token (PrivateKey keys) of
                Inl err \<Rightarrow> Inl err
              | Inr tokenString \<Rightarrow> Inr tokenString))"

definition DecodeToken :: "library \<Rightarrow> RSAKeyPair \<Rightarrow> string \<Rightarrow> error + Token" where
  "DecodeToken lib keys tokenStr =
     (case jwt_Parse lib tokenStr (PublicKey keys) of
        Inl err \<Rightarrow> Inl err
      | Inr token \<Rightarrow> if Valid token then Inr token else Inl InvalidToken)"

text \<open>
  \<open>subjects.(string)\<close> is a type assertion with one result: it panics when the
  dynamic type of the claim is not \<open>string\<close>.
\<close>

definition GetTokenSubject :: "library \<Rightarrow> RSAKeyPair \<Rightarrow> string \<Rightarrow> error + string" where
  "GetTokenSubject lib keys tokenStr =
     (case DecodeToken lib keys tokenStr of
        Inl err \<Rightarrow> Inl err
      | Inr token \<Rightarrow>
          (case Claims token ''sub'' of
             Some subjects \<Rightarrow>
               (case subjects of
                  GoString s \<Rightarrow> Inr s
                | _ \<Rightarrow> Inl (Panic (InterfaceConversion (type_name subjects))))
           | None \<Rightarrow> Inl MissingSubjects))"

definition VerifyTokenSubject :: "library \<Rightarrow> RSAKeyPair \<Rightarrow> string \<Rightarrow> string \<Rightarrow> error + bool" where
  "VerifyTokenSubject lib keys tokenStr subject =
     (case DecodeToken lib keys tokenStr of
        Inl err \<Rightarrow> Inl err
      | Inr token \<Rightarrow>
          if Claims token ''sub'' = Some (GoString subject) then Inr True
          else Inl IncorrectSub)"

definition expireOffset :: int where
  "expireOffset = 3600"

text \<open>
  \<open>GetTokenRemainingValidity\<close>: \<open>now\<close> is the reading of \<open>time.Now()\<close>. Only a value
  of dynamic type \<open>float64\<close> passes the type assertion.
\<close>

definition GetTokenRemainingValidity ::
  "(float64 \<Rightarrow> int) \<Rightarrow> Time \<Rightarrow> RSAKeyPair \<Rightarrow> dyn \<Rightarrow> int" where
  "GetTokenRemainingValidity conv now keys timestamp =
     (case timestamp of
        GoFloat64 validity \<Rightarrow>
          (let tm = time_Unix (float64_to_int64 conv validity);
               remainer = Time_Sub tm now
           in if 0 < remainer
              then float64_to_int64 conv
                     (Finite (f64_round (Duration_Seconds remainer + of_int expireOffset)))
              else expireOffset)
      | _ \<Rightarrow> expireOffset)"

section \<open>Signing methods and durations\<close>

text \<open>
  \<open>strings.ToLower\<close> and \<open>strings.TrimSpace\<close> work on the bytes themselves as long as
  they are ASCII. On a byte from \<open>0x80\<close> up they turn to the Unicode tables, which are
  parameters of the model: \<open>unicode_ToLower\<close> is \<open>strings.Map(unicode.ToLower, s)\<close>,
  \<open>unicode_TrimFunc\<close> is \<open>strings.TrimFunc(s, unicode.IsSpace)\<close> and
  \<open>unicode_TrimRightFunc\<close> is \<open>strings.TrimRightFunc(s, unicode.IsSpace)\<close>.
\<close>

record unicode =
  unicode_ToLower :: "string \<Rightarrow> string"
  unicode_TrimFunc :: "string \<Rightarrow> string"
  unicode_TrimRightFunc :: "string \<Rightarrow> string"

definition is_ascii :: "char \<Rightarrow> bool" where
  "is_ascii c = ((of_char c :: nat) < 128)"

definition lower_ascii :: "char \<Rightarrow> char" where
  "lower_ascii c =
     (let n = (of_char c :: nat) in if 65 \<le> n \<and> n \<le> 90 then char_of (n + 32) else c)"

definition strings_ToLower :: "unicode \<Rightarrow> string \<Rightarrow> string" where
  "strings_ToLower U s = (if list_all is_ascii s then map lower_ascii s else unicode_ToLower U s)"

definition asciiSpace :: "char \<Rightarrow> bool" where
  "asciiSpace c = ((of_char c :: nat) \<in> {9, 10, 11, 12, 13, 32})"

fun trim_stop :: "unicode \<Rightarrow> string \<Rightarrow> string" where
  "trim_stop U [] = []"
| "trim_stop U (c # cs) =
     (if is_ascii c
      then (if asciiSpace c then trim_stop U cs else rev (c # cs))
      else unicode_TrimRightFunc U (rev (c # cs)))"

fun trim_start :: "unicode \<Rightarrow> string \<Rightarrow> string" where
  "trim_start U [] = []"
| "trim_start U (c # cs) =
     (if is_ascii c
      then (if asciiSpace c then trim_start U cs else trim_stop U (rev (c # cs)))
      else unicode_TrimFunc U (c # cs))"

definition strings_TrimSpace :: "unicode \<Rightarrow> string \<Rightarrow> string" where
  "strings_TrimSpace U s = trim_start U s"

definition SigMethod :: "unicode \<Rightarrow> string \<Rightarrow> SigningMethod option" where
  "SigMethod U algo =
     (let a = strings_ToLower U algo
      in if a = ''rs256'' then Some RS256
         else if a = ''rs384'' then Some RS384
         else if a = ''rs512'' then Some RS512
         else if a = ''hs256'' then Some HS256
         else if a = ''hs384'' then Some HS384
         else if a = ''hs512'' then Some HS512
         else if a = ''es256'' then Some ES256
         else if a = ''es384'' then Some ES384
         else if a = ''es512'' then Some ES512
         else if a = ''ps256'' then Some PS256
         else if a = ''ps384'' then Some PS384
         else if a = ''ps512'' then Some PS512
         else if a = ''none'' then Some SigningMethodNone
         else None)"

text \<open>
  The two regular expressions of \<open>ValidateDurationPeriod\<close>, \<open>^[1-9][0-9]*d$\<close> and
  \<open>^[1-9][0-9]*y$\<close>: a digit other than \<open>0\<close>, any digits, and the unit as the last
  character.
\<close>

definition is_digit :: "char \<Rightarrow> bool" where
  "is_digit c = (48 \<le> (of_char c :: nat) \<and> (of_char c :: nat) \<le> 57)"

definition digit_val :: "char \<Rightarrow> nat" where
  "digit_val c = of_char c - 48"

definition matches_period :: "char \<Rightarrow> string \<Rightarrow> bool" where
  "matches_period unit s =
     (case s of
        [] \<Rightarrow> False
      | c # cs \<Rightarrow>
          is_digit c \<and> c \<noteq> CHR ''0'' \<and> cs \<noteq> [] \<and> last cs = unit \<and> list_all is_digit (butlast cs))"

text \<open>
  \<open>strconv.Atoi\<close>: an optional sign and decimal digits; \<open>None\<close> is its error, for a
  text that is no number and for a number outside \<open>int\<close>.
\<close>

fun digits_value :: "nat \<Rightarrow> string \<Rightarrow> nat" where
  "digits_value acc [] = acc"
| "digits_value acc (c # cs) = digits_value (acc * 10 + digit_val c) cs"

definition Atoi :: "string \<Rightarrow> int option" where
  "Atoi s =
     (let neg = (case s of [] \<Rightarrow> False | c # _ \<Rightarrow> c = CHR ''-'');
          ds = (case s of [] \<Rightarrow> [] | c # cs \<Rightarrow> if c = CHR ''-'' \<or> c = CHR ''+'' then cs else s)
      in if ds \<noteq> [] \<and> list_all is_digit ds
         then (let n = int (digits_value 0 ds)
               in if neg then (if n \<le> 2 ^ 63 then Some (- n) else None)
                  else (if n \<le> 2 ^ 63 - 1 then Some n else None))
         else None)"

definition ValidateDurationPeriod :: "string \<Rightarrow> error + int" where
  "ValidateDurationPeriod duration =
     (if matches_period (CHR ''d'') duration then
        (case Atoi (butlast duration) of
           Some n \<Rightarrow> Inr (wrap64 (wrap64 (n * 24) * Hour))
         | None \<Rightarrow> Inl (InvalidDuration duration))
      else if matches_period (CHR ''y'') duration then
        (case Atoi (butlast duration) of
           Some n \<Rightarrow> Inr (wrap64 (wrap64 (wrap64 (n * 365) * 24) * Hour))
         | None \<Rightarrow> Inl (InvalidDuration duration))
      else Inl (InvalidDuration duration))"

text \<open>
  \<open>time.ParseDuration\<close> of the Go standard library, the general grammar
  \<open>[-+]?([0-9]*(\.[0-9]*)?[a-z]+)+\<close>, after its implementation: \<open>leadingInt\<close> and
  \<open>leadingFraction\<close> read digits into a \<open>uint64\<close>, \<open>unitMap\<close> knows the units, one
  pass of the loop reads a number with its unit (\<open>parse_segment\<close>), and the sum of the
  passes is kept in a \<open>uint64\<close>.
\<close>

fun leadingInt :: "nat \<Rightarrow> string \<Rightarrow> (nat \<times> string) option" where
  "leadingInt x [] = Some (x, [])"
| "leadingInt x (c # cs) =
     (if is_digit c
      then (if 2 ^ 63 div 10 < x then None
            else (let y = x * 10 + digit_val c
                  in if 2 ^ 63 < y then None else leadingInt y cs))
      else Some (x, c # cs))"

fun leadingFraction :: "nat \<Rightarrow> rat \<Rightarrow> bool \<Rightarrow> string \<Rightarrow> nat \<times> rat \<times> string" where
  "leadingFraction x scale overflow [] = (x, scale, [])"
| "leadingFraction x scale overflow (c # cs) =
     (if is_digit c
      then (if overflow then leadingFraction x scale overflow cs
            else if (2 ^ 63 - 1) div 10 < x then leadingFraction x scale True cs
            else (let y = x * 10 + digit_val c
                  in if 2 ^ 63 < y then leadingFraction x scale True cs
                     else leadingFraction y (f64_round (scale * 10)) False cs))
      else (x, scale, c # cs))"

definition unitMap :: "string \<Rightarrow> nat option" where
  "unitMap u =
     (if u = ''ns'' then Some 1
      else if u = ''us'' then Some 1000
      else if u = [CHR 0xC2, CHR 0xB5, CHR ''s''] then Some 1000
      else if u = [CHR 0xCE, CHR 0xBC, CHR ''s''] then Some 1000
      else if u = ''ms'' then Some 1000000
      else if u = ''s'' then Some 1000000000
      else if u = ''m'' then Some 60000000000
      else if u = ''h'' then Some 3600000000000
      else None)"

definition is_num_char :: "char \<Rightarrow> bool" where
  "is_num_char c = (c = CHR ''.'' \<or> is_digit c)"

definition unit_char :: "char \<Rightarrow> bool" where
  "unit_char c = (if is_num_char c then False else True)"

definition read_fraction :: "string \<Rightarrow> nat \<times> rat \<times> bool \<times> string" where
  "read_fraction s =
     (case s of
        [] \<Rightarrow> (0, 1, False, s)
      | c # cs \<Rightarrow>
          if c = CHR ''.''
          then (case leadingFraction 0 1 False cs of
                  (f, scale, r) \<Rightarrow> (f, scale, length r \<noteq> length cs, r))
          else (0, 1, False, s))"

definition parse_segment :: "string \<Rightarrow> string \<Rightarrow> error + (nat \<times> string)" where
  "parse_segment orig s =
     (case s of
        [] \<Rightarrow> Inl (TimeInvalidDuration orig)
      | c # _ \<Rightarrow>
          if is_num_char c then
            (case leadingInt 0 s of
               None \<Rightarrow> Inl (TimeInvalidDuration orig)
             | Some (v, s1) \<Rightarrow>
                 (case read_fraction s1 of
                    (f, scale, post, s2) \<Rightarrow>
                      if length s1 = length s \<and> post = False then Inl (TimeInvalidDuration orig)
                      else
                        (let u = takeWhile unit_char s2; s3 = dropWhile unit_char s2
                         in if u = [] then Inl (TimeMissingUnit orig)
                            else
                              (case unitMap u of
                                 None \<Rightarrow> Inl (TimeUnknownUnit u orig)
                               | Some unit \<Rightarrow>
                                   if 2 ^ 63 div unit < v then Inl (TimeInvalidDuration orig)
                                   else if 0 < f then
                                     (let w = v * unit
                                            + nat (trunc (f64_round (f64_round (of_nat f)
                                                * f64_round (f64_round (of_nat unit) / scale))))
                                      in if 2 ^ 63 < w then Inl (TimeInvalidDuration orig)
                                         else Inr (w, s3))
                                   else Inr (v * unit, s3)))))
          else Inl (TimeInvalidDuration orig))"

lemma leadingInt_length: "leadingInt x s = Some (y, r) \<Longrightarrow> length r \<le> length s"
  by (induction x s rule: leadingInt.induct) (auto simp: Let_def split: if_splits)

lemma leadingFraction_length: "leadingFraction x sc ov s = (y, sc', r) \<Longrightarrow> length r \<le> length s"
  by (induction x sc ov s rule: leadingFraction.induct) (auto simp: Let_def split: if_splits)

lemma read_fraction_length: "read_fraction s = (f, sc, post, r) \<Longrightarrow> length r \<le> length s"
  by (auto simp: read_fraction_def split: list.splits if_splits prod.splits dest: leadingFraction_length)

lemma dropWhile_shorter: "takeWhile P s \<noteq> [] \<Longrightarrow> length (dropWhile P s) < length s"
  by (cases s) (auto simp: length_dropWhile_le le_imp_less_Suc split: if_splits)

lemma parse_segment_length:
  assumes "parse_segment orig s = Inr (v, rest)"
  shows "length rest < length s"
proof -
  from assms obtain v0 s1 f sc post s2 where
    li: "leadingInt 0 s = Some (v0, s1)" and rf: "read_fraction s1 = (f, sc, post, s2)"
    and u: "takeWhile unit_char s2 \<noteq> []" and rest: "rest = dropWhile unit_char s2"
    by (auto simp: parse_segment_def Let_def split: list.splits if_splits option.splits prod.splits)
  have "length rest < length s2" unfolding rest using u by (rule dropWhile_shorter)
  also have "length s2 \<le> length s1" using rf by (rule read_fraction_length)
  also have "length s1 \<le> length s" using li by (rule leadingInt_length)
  finally show ?thesis .
qed

text \<open>
  The loop of \<open>time.ParseDuration\<close> runs while text is left. Every pass consumes at
  least the unit, so the loop ends.
\<close>

function parse_loop :: "string \<Rightarrow> nat \<Rightarrow> string \<Rightarrow> error + nat" where
  "parse_loop orig d s =
     (if s = [] then Inr d
      else (case parse_segment orig s of
              Inl err \<Rightarrow> Inl err
            | Inr (v, rest) \<Rightarrow>
                (let d' = (d + v) mod 2 ^ 64
                 in if 2 ^ 63 < d' then Inl (TimeInvalidDuration orig)
                    else parse_loop orig d' rest)))"
  by pat_completeness auto
termination
  by (relation "measure (\<lambda>(orig, d, s). length s)") (auto dest: parse_segment_length)

definition ParseDuration :: "string \<Rightarrow> error + int" where
  "ParseDuration orig =
     (let neg = (case orig of [] \<Rightarrow> False | c # _ \<Rightarrow> c = CHR ''-'');
          s = (case orig of [] \<Rightarrow> [] | c # cs \<Rightarrow> if c = CHR ''-'' \<or> c = CHR ''+'' then cs else orig)
      in if s = ''0'' then Inr 0
         else if s = [] then Inl (TimeInvalidDuration orig)
         else (case parse_loop orig 0 s of
                 Inl err \<Rightarrow> Inl err
               | Inr d \<Rightarrow>
                   if neg then Inr (wrap64 (- int d))
                   else if 2 ^ 63 - 1 < d then Inl (TimeInvalidDuration orig)
                   else Inr (int d)))"

text \<open>
  \<open>ValidateClaims\<close> tries the day and year grammar first and the general grammar
  when that fails.
\<close>

definition ValidateClaims :: "unicode \<Rightarrow> string \<Rightarrow> string \<Rightarrow> error + (int \<times> SigningMethod)" where
  "ValidateClaims U expiryDuration signingMethod =
     (let dur = strings_TrimSpace U (strings_ToLower U expiryDuration)
      in case (case ValidateDurationPeriod dur of
                 Inr timeDuration \<Rightarrow> Inr timeDuration
               | Inl _ \<Rightarrow> ParseDuration dur) of
           Inl err \<Rightarrow> Inl err
         | Inr timeDuration \<Rightarrow>
             (case SigMethod U signingMethod of
                None \<Rightarrow> Inl (InvalidSigningMethod signingMethod)
              | Some sigMethod \<Rightarrow> Inr (timeDuration, sigMethod)))"

section \<open>The methods of a key pair as operations on it\<close>

text \<open>
  Every method of \<open>RSAKeyPair\<close> has a pointer receiver, so a call could change the key
  pair it is called on. \<open>invoke\<close> runs one call in the state it finds, the file system
  and the key pair, and returns the result with the state the call leaves: the file
  exports write their file, and no method assigns to a field of its receiver.
\<close>

datatype method_call =
    Call_ExportRSAPublicKeyAsPEM
  | Call_ExportRSAPrivateKeyAsPEM
  | Call_ExportPrivateKeyBinaryBase64
  | Call_ExportPublicKeyBinaryBase64
  | Call_ExportRSAPublicKeyBinaryFile string
  | Call_ExportRSAPrivateKeyBinaryFile string
  | Call_GenerateToken Time Time string int "SigningMethod option"
  | Call_DecodeToken string
  | Call_GetTokenSubject string
  | Call_VerifyTokenSubject string string
  | Call_GetTokenRemainingValidity "float64 \<Rightarrow> int" Time dyn

datatype method_result =
    Text string
  | Written "error option"
  | TextOrError "error + string"
  | TokenOrError "error + Token"
  | BoolOrError "error + bool"
  | Number int

fun invoke ::
  "library \<Rightarrow> method_call \<Rightarrow> filesystem \<times> RSAKeyPair \<Rightarrow> method_result \<times> filesystem \<times> RSAKeyPair" where
  "invoke lib Call_ExportRSAPublicKeyAsPEM (fs, keys) =
     (Text (ExportRSAPublicKeyAsPEM keys), fs, keys)"
| "invoke lib Call_ExportRSAPrivateKeyAsPEM (fs, keys) =
     (Text (ExportRSAPrivateKeyAsPEM keys), fs, keys)"
| "invoke lib Call_ExportPrivateKeyBinaryBase64 (fs, keys) =
     (Text (ExportPrivateKeyBinaryBase64 keys), fs, keys)"
| "invoke lib Call_ExportPublicKeyBinaryBase64 (fs, keys) =
     (Text (ExportPublicKeyBinaryBase64 keys), fs, keys)"
| "invoke lib (Call_ExportRSAPublicKeyBinaryFile filePath) (fs, keys) =
     (case ExportRSAPublicKeyBinaryFile lib fs keys filePath of
        (err, fs') \<Rightarrow> (Written err, fs', keys))"
| "invoke lib (Call_ExportRSAPrivateKeyBinaryFile filePath) (fs, keys) =
     (case ExportRSAPrivateKeyBinaryFile lib fs keys filePath of
        (err, fs') \<Rightarrow> (Written err, fs', keys))"
| "invoke lib (Call_GenerateToken now1 now2 userSubject timeDuration signingMethod) (fs, keys) =
     (TextOrError (GenerateToken lib now1 now2 keys userSubject timeDuration signingMethod), fs, keys)"
| "invoke lib (Call_DecodeToken tokenStr) (fs, keys) =
     (TokenOrError (DecodeToken lib keys tokenStr), fs, keys)"
| "invoke lib (Call_GetTokenSubject tokenStr) (fs, keys) =
     (TextOrError (GetTokenSubject lib keys tokenStr), fs, keys)"
| "invoke lib (Call_VerifyTokenSubject tokenStr subject) (fs, keys) =
     (BoolOrError (VerifyTokenSubject lib keys tokenStr subject), fs, keys)"
| "invoke lib (Call_GetTokenRemainingValidity conv now timestamp) (fs, keys) =
     (Number (GetTokenRemainingValidity conv now keys timestamp), fs, keys)"

text \<open>
  The key pairs a program can hold: one returned by \<open>NewRSAKeyPair\<close>,
  \<open>LoadRSAKeyPair\<close> or \<open>LoadRSAKeyPairFromBase64\<close>, and what any sequence of method
  calls makes of it.
\<close>

inductive reachable :: "library \<Rightarrow> RSAKeyPair \<Rightarrow> bool" for lib :: library where
  generated: "NewRSAKeyPair lib = Inr keys \<Longrightarrow> reachable lib keys"
| loaded: "LoadRSAKeyPair lib fs privateKeyPath publicKeyPath = Inr keys \<Longrightarrow> reachable lib keys"
| loaded_base64:
    "LoadRSAKeyPairFromBase64 lib privateKeyBase64 publicKeyBase64 = Inr keys \<Longrightarrow> reachable lib keys"
| called:
    "reachable lib keys \<Longrightarrow> invoke lib call (fs, keys) = (result, fs', keys') \<Longrightarrow> reachable lib keys'"

section \<open>Sample values\<close>

text \<open>
  An ASN.1 \<open>SEQUENCE\<close> in DER begins with the byte \<open>0x30\<close>; the PKCS8 and PKIX
  structures are sequences.
\<close>

definition begins_with_SEQUENCE :: "bytes \<Rightarrow> bool" where
  "begins_with_SEQUENCE data = (case data of [] \<Rightarrow> False | b # _ \<Rightarrow> b = 0x30)"

text \<open>
  A small stand-in for the libraries, with which the hypotheses of the theorems below
  are met on concrete values: it knows one RSA key, parses any data that begins like a
  DER sequence into it, and reads any token as one whose subject is the number 42.
\<close>

definition sample_private :: rsa_PrivateKey where
  "sample_private =
     \<lparr>rsa_Public = \<lparr>rsa_N = 3233, rsa_E = 17\<rparr>, rsa_D = 2753, rsa_Primes = [61, 53]\<rparr>"

definition sample_token :: Token where
  "sample_token =
     \<lparr>Method = RS256,
      Header = [''typ'' \<mapsto> GoString ''JWT'', ''alg'' \<mapsto> GoString ''RS256''],
      Claims = [''sub'' \<mapsto> GoFloat64 (Finite 42)],
      Valid = True\<rparr>"

definition sample_library :: library where
  "sample_library =
     \<lparr>rsa_GenerateKey = (\<lambda>bits. Inr sample_private),
      rsa_Validate = (\<lambda>key. None),
      x509_ParsePKCS8PrivateKey =
        (\<lambda>data. if begins_with_SEQUENCE data then Inr (RSAPrivate sample_private)
                else Inl (LibError ''asn1: structure error'')),
      x509_ParsePKIXPublicKey =
        (\<lambda>data. if begins_with_SEQUENCE data then Inr (RSAPublic (rsa_Public sample_private))
                else Inl (LibError ''asn1: structure error'')),
      x509_MarshalPKCS8PrivateKey = (\<lambda>key. Inr [0x30, 0x82, 0x04, 0xBE]),
      x509_MarshalPKIXPublicKey = (\<lambda>key. Inr [0x30, 0x82, 0x01, 0x22]),
      pem_Decode_found = (\<lambda>data. (None, data)),
      jwt_SignedString = (\<lambda>token key. Inr ''e30.e30.c2ln''),
      jwt_Parse = (\<lambda>tokenStr key. Inr sample_token),
      can_create = (\<lambda>filePath. True)\<rparr>"

definition sample_keys :: RSAKeyPair where
  "sample_keys =
     \<lparr>PrivateKey = sample_private,
      PublicKey = rsa_Public sample_private,
      PrivateKeyPKCS8Bytes = [0x30, 0x82, 0x04, 0xBE],
      PublicKeyPKIXBytes = [0x30, 0x82, 0x01, 0x22]\<rparr>"

section \<open>Properties of the format detector\<close>

lemma or_add_b2:
  "(ucast (b3::byte) :: 32 word) OR push_bit 8 (ucast (b2::byte))
     = ucast b3 + push_bit 8 (ucast b2)"
  by (rule disjunctive_add[symmetric]) (auto simp: bit_simps dest: bit_imp_le_length)

lemma or_add_b1:
  "((ucast (b3::byte) :: 32 word) OR push_bit 8 (ucast (b2::byte))) OR push_bit 16 (ucast (b1::byte))
     = (ucast b3 OR push_bit 8 (ucast b2)) + push_bit 16 (ucast b1)"
  by (rule disjunctive_add[symmetric]) (auto simp: bit_simps dest: bit_imp_le_length)

lemma or_add_b0:
  "(((ucast (b3::byte) :: 32 word) OR push_bit 8 (ucast (b2::byte))) OR push_bit 16 (ucast (b1::byte)))
      OR push_bit 24 (ucast (b0::byte))
     = ((ucast b3 OR push_bit 8 (ucast b2)) OR push_bit 16 (ucast b1)) + push_bit 24 (ucast b0)"
  by (rule disjunctive_add[symmetric]) (auto simp: bit_simps dest: bit_imp_le_length)

lemma sum_of_bytes:
  "(ucast (b3::byte) :: 32 word) + push_bit 8 (ucast (b2::byte)) + push_bit 16 (ucast (b1::byte))
      + push_bit 24 (ucast (b0::byte))
     = of_nat (unat b0 * 2 ^ 24 + unat b1 * 2 ^ 16 + unat b2 * 2 ^ 8 + unat b3)"
  by (simp only: of_nat_add of_nat_mult of_nat_power of_nat_numeral of_nat_unat
      push_bit_eq_mult add.commute add.left_commute)

lemma BigEndian_Uint32_value:
  "BigEndian_Uint32 (b0 # b1 # b2 # b3 # rest)
     = Some (of_nat (unat b0 * 2 ^ 24 + unat b1 * 2 ^ 16 + unat b2 * 2 ^ 8 + unat b3))"
proof -
  have "(ucast b3 OR push_bit 8 (ucast b2) OR push_bit 16 (ucast b1) OR push_bit 24 (ucast b0) :: 32 word)
      = ((ucast b3 OR push_bit 8 (ucast b2)) OR push_bit 16 (ucast b1)) OR push_bit 24 (ucast b0)"
    by (simp only: or.assoc)
  also have "\<dots> = ((ucast b3 OR push_bit 8 (ucast b2)) OR push_bit 16 (ucast b1)) + push_bit 24 (ucast b0)"
    by (rule or_add_b0)
  also have "\<dots> = ((ucast b3 OR push_bit 8 (ucast b2)) + push_bit 16 (ucast b1)) + push_bit 24 (ucast b0)"
    by (simp only: or_add_b1)
  also have "\<dots> = (ucast b3 + push_bit 8 (ucast b2)) + push_bit 16 (ucast b1) + push_bit 24 (ucast b0)"
    by (simp only: or_add_b2)
  also have "\<dots> = of_nat (unat b0 * 2 ^ 24 + unat b1 * 2 ^ 16 + unat b2 * 2 ^ 8 + unat b3)"
    by (rule sum_of_bytes)
  finally show ?thesis by (simp only: BigEndian_Uint32.simps)
qed

lemma fileFormat_of_magic:
  assumes "BigEndian_Uint32 (b0 # b1 # b2 # b3 # rest) = Some m"
  shows "fileFormat (fs(file \<mapsto> b0 # b1 # b2 # b3 # rest)) file =
     (if m = 0x2D2D2D2D \<or> m = 0x434F4E4E then Inr ''PEM''
      else if m AND 0xFFFF0000 = 0x30820000 \<and> m AND 0x0000FF00 = 0x0300 then Inr ''DER''
      else if m AND 0xFFFF0000 = 0x30820000 then Inr ''PKCS12''
      else Inl UndeterminedFormat)"
proof -
  have peek: "Peek4 (b0 # b1 # b2 # b3 # rest) = Inr [b0, b1, b2, b3]"
    by (simp add: Peek4_def)
  have "BigEndian_Uint32 [b0, b1, b2, b3] = BigEndian_Uint32 (b0 # b1 # b2 # b3 # rest)"
    by (simp only: BigEndian_Uint32.simps)
  with assms have m: "BigEndian_Uint32 [b0, b1, b2, b3] = Some m"
    by (simp only:)
  show ?thesis
    unfolding fileFormat_def
    by (simp only: fun_upd_same option.case sum.case peek m) simp
qed

text \<open>
  Claim C1. Whatever file holds at least four bytes, the detector reads them as the
  big-endian number \<open>m\<close> and answers by the rule table: PEM for \<open>0x2D2D2D2D\<close> and
  \<open>0x434F4E4E\<close>; otherwise DER when \<open>m AND 0xFFFF0000 = 0x30820000\<close> and
  \<open>m AND 0x0000FF00 = 0x0300\<close>; otherwise PKCS12 when \<open>m AND 0xFFFF0000 = 0x30820000\<close>;
  otherwise the undetermined-format error. The bytes \<open>30 82 03 00\<close> are DER and the
  bytes \<open>30 82 01 02\<close> are PKCS12.
\<close>

theorem fileFormat_rule_table:
  "fileFormat (fs(file \<mapsto> b0 # b1 # b2 # b3 # rest)) file =
     (let m = (of_nat (unat b0 * 2 ^ 24 + unat b1 * 2 ^ 16 + unat b2 * 2 ^ 8 + unat b3) :: 32 word)
      in if m = 0x2D2D2D2D \<or> m = 0x434F4E4E then Inr ''PEM''
         else if m AND 0xFFFF0000 = 0x30820000 \<and> m AND 0x0000FF00 = 0x0300 then Inr ''DER''
         else if m AND 0xFFFF0000 = 0x30820000 then Inr ''PKCS12''
         else Inl UndeterminedFormat)
   \<and> fileFormat (fs(file \<mapsto> 0x30 # 0x82 # 0x03 # 0x00 # rest)) file = Inr ''DER''
   \<and> fileFormat (fs(file \<mapsto> 0x30 # 0x82 # 0x01 # 0x02 # rest)) file = Inr ''PKCS12''
   \<and> fileFormat (fs(file \<mapsto> 0x2D # 0x2D # 0x2D # 0x2D # rest)) file = Inr ''PEM''"
proof -
  have general: "fileFormat (fs(file \<mapsto> b0 # b1 # b2 # b3 # rest)) file =
     (let m = (of_nat (unat b0 * 2 ^ 24 + unat b1 * 2 ^ 16 + unat b2 * 2 ^ 8 + unat b3) :: 32 word)
      in if m = 0x2D2D2D2D \<or> m = 0x434F4E4E then Inr ''PEM''
         else if m AND 0xFFFF0000 = 0x30820000 \<and> m AND 0x0000FF00 = 0x0300 then Inr ''DER''
         else if m AND 0xFFFF0000 = 0x30820000 then Inr ''PKCS12''
         else Inl UndeterminedFormat)"
    unfolding Let_def by (rule fileFormat_of_magic) (rule BigEndian_Uint32_value)
  have der: "fileFormat (fs(file \<mapsto> 0x30 # 0x82 # 0x03 # 0x00 # rest)) file = Inr ''DER''"
    by (subst fileFormat_of_magic [where m = "0x30820300"]) simp_all
  have p12: "fileFormat (fs(file \<mapsto> 0x30 # 0x82 # 0x01 # 0x02 # rest)) file = Inr ''PKCS12''"
    by (subst fileFormat_of_magic [where m = "0x30820102"]) simp_all
  have pem: "fileFormat (fs(file \<mapsto> 0x2D # 0x2D # 0x2D # 0x2D # rest)) file = Inr ''PEM''"
    by (subst fileFormat_of_magic [where m = "0x2D2D2D2D"]) simp_all
  from general der p12 pem show ?thesis by (intro conjI)
qed

section \<open>Rounding to binary64\<close>

text \<open>
  Rounding is monotone across the integers a \<open>float64\<close> represents exactly: an integer
  below \<open>2\<^sup>5\<^sup>3\<close> that bounds a number bounds what the number rounds to.
\<close>

lemma round_half_even_ge: "of_int m \<le> q \<Longrightarrow> m \<le> round_half_even q"
proof -
  assume "of_int m \<le> q"
  then have "m \<le> \<lfloor>q\<rfloor>" by (simp only: le_floor_iff)
  then show ?thesis by (simp add: round_half_even_def Let_def)
qed

lemma round_half_even_le: "q \<le> of_int m \<Longrightarrow> round_half_even q \<le> m"
proof -
  assume a: "q \<le> of_int m"
  have "(of_int \<lfloor>q\<rfloor> :: rat) \<le> of_int m" using a of_int_floor_le [of q] by (rule order_trans [rotated])
  then have f: "\<lfloor>q\<rfloor> \<le> m" by (simp only: of_int_le_iff)
  show ?thesis
  proof (cases "q - of_int \<lfloor>q\<rfloor> < 1 / 2")
    case True then show ?thesis using f by (simp add: round_half_even_def Let_def)
  next
    case False
    then have "of_int \<lfloor>q\<rfloor> < q" by simp
    with a have "(of_int \<lfloor>q\<rfloor> :: rat) < of_int m" by simp
    then have "\<lfloor>q\<rfloor> < m" by simp
    then show ?thesis by (simp add: round_half_even_def Let_def)
  qed
qed

lemma binary_exponent_bounds:
  assumes "0 < x"
  shows "2 powi (binary_exponent x) \<le> x" and "x < 2 powi (binary_exponent x + 1)"
proof -
  have "2 powi (binary_exponent x) \<le> x \<and> x < 2 powi (binary_exponent x + 1)"
  proof (cases "1 \<le> x")
    case True
    define n where "n = \<lfloor>x\<rfloor>"
    have n: "0 < n" using True by (simp add: n_def)
    from bitlen_bounds [OF n] have b: "2 ^ nat (bitlen n - 1) \<le> n" "n < 2 ^ nat (bitlen n)" by auto
    have b1: "1 \<le> bitlen n" using n by (auto simp: bitlen_alt_def)
    have e: "binary_exponent x = bitlen n - 1" using True by (simp add: binary_exponent_def n_def)
    have "(2::rat) powi (bitlen n - 1) = of_int (2 ^ nat (bitlen n - 1))"
      using b1 by (simp add: power_int_def)
    also have "\<dots> \<le> of_int n" using b(1) by (simp only: of_int_le_iff)
    also have "\<dots> \<le> x" by (simp add: n_def)
    finally have lo: "2 powi (binary_exponent x) \<le> x" by (simp add: e)
    have "n + 1 \<le> 2 ^ nat (bitlen n)" using b(2) by simp
    then have "(of_int (n + 1) :: rat) \<le> of_int (2 ^ nat (bitlen n))" by (simp only: of_int_le_iff)
    moreover have "x < of_int (n + 1)" using floor_correct [of x] by (simp add: n_def)
    moreover have "(2::rat) powi (bitlen n - 1 + 1) = of_int (2 ^ nat (bitlen n))"
      using b1 by (simp add: power_int_def)
    ultimately have "x < 2 powi (binary_exponent x + 1)" by (simp add: e)
    with lo show ?thesis by simp
  next
    case False
    define y where "y = 1 / x"
    define m where "m = \<lceil>y\<rceil>"
    have y: "1 < y" using False assms by (simp add: y_def)
    have m: "0 < m - 1" using y by (simp add: m_def)
    define b where "b = bitlen (m - 1)"
    from bitlen_bounds [OF m] have bb: "2 ^ nat (b - 1) \<le> m - 1" "m - 1 < 2 ^ nat b" by (auto simp: b_def)
    have b1: "1 \<le> b" using m by (auto simp: bitlen_alt_def b_def)
    have e: "binary_exponent x = - b" using False by (simp add: binary_exponent_def b_def m_def y_def)
    have "y \<le> of_int m" by (simp add: m_def)
    also have "(of_int m :: rat) \<le> of_int (2 ^ nat b)"
    proof -
      from bb(2) have "m \<le> 2 ^ nat b" by simp
      then show ?thesis by (simp only: of_int_le_iff)
    qed
    also have "\<dots> = 2 powi b" using b1 by (simp add: power_int_def)
    finally have "1 / x \<le> 2 powi b" by (simp add: y_def)
    then have "1 \<le> 2 powi b * x" using assms by (simp add: field_simps)
    then have lo: "2 powi (- b) \<le> x" by (simp add: power_int_minus field_simps)
    have "(of_int (2 ^ nat (b - 1)) :: rat) \<le> of_int (m - 1)" using bb(1) by (simp only: of_int_le_iff)
    also have "(of_int (m - 1) :: rat) < y" unfolding m_def using ceiling_correct [of y] by simp
    finally have "2 powi (b - 1) < 1 / x" using b1 by (simp add: power_int_def y_def)
    then have "x * 2 powi (b - 1) < 1" using assms by (simp add: field_simps)
    moreover have p: "(0::rat) < 2 powi (b - 1)" by simp
    ultimately have "x < 1 / 2 powi (b - 1)" by (simp only: pos_less_divide_eq)
    also have "1 / 2 powi (b - 1) = (2::rat) powi (- (b - 1))" by (simp only: power_int_minus_divide)
    also have "- (b - 1) = - b + 1" by simp
    finally have "x < 2 powi (- b + 1)" .
    with lo show ?thesis by (simp add: e)
  qed
  then show "2 powi (binary_exponent x) \<le> x" and "x < 2 powi (binary_exponent x + 1)" by simp_all
qed


lemma f64_round_nonneg: "0 \<le> x \<Longrightarrow> 0 \<le> f64_round x"
proof -
  assume x: "0 \<le> x"
  show ?thesis
  proof (cases "x = 0")
    case True then show ?thesis by (simp add: f64_round_def)
  next
    case False
    with x have pos: "0 < x" by simp
    define u :: rat where "u = 2 powi (max (binary_exponent \<bar>x\<bar>) (- 1022) - 52)"
    have u: "0 < u" by (simp add: u_def)
    have "(of_int 0 :: rat) \<le> \<bar>x\<bar> / u" using pos u by simp
    then have "0 \<le> round_half_even (\<bar>x\<bar> / u)" by (rule round_half_even_ge)
    then have "0 \<le> of_int (round_half_even (\<bar>x\<bar> / u)) * u" using u by simp
    moreover have "f64_round x = of_int (round_half_even (\<bar>x\<bar> / u)) * u"
      using pos by (simp add: f64_round_def Let_def u_def)
    ultimately show ?thesis by simp
  qed
qed

lemma f64_round_ge:
  assumes k: "0 \<le> k" "k < 2 ^ 53" and x: "of_int k \<le> x"
  shows "of_int k \<le> f64_round x"
proof (cases "k = 0")
  case True
  with x show ?thesis using f64_round_nonneg [of x] by simp
next
  case False
  with k have k1: "1 \<le> k" by simp
  then have "(1::rat) \<le> of_int k" by simp
  with x have x1: "1 \<le> x" by simp
  then have pos: "0 < x" by simp
  define e where "e = binary_exponent x"
  from binary_exponent_bounds [OF pos] have eb: "2 powi e \<le> x" "x < 2 powi (e + 1)"
    by (simp_all add: e_def)
  have e0: "0 \<le> e"
  proof (rule ccontr)
    assume "\<not> 0 \<le> e"
    then have "e + 1 \<le> 0" by simp
    then have "(2::rat) powi (e + 1) \<le> 2 powi 0" by (intro power_int_increasing) simp_all
    with eb(2) x1 show False by simp
  qed
  define u :: rat where "u = 2 powi (e - 52)"
  have u: "0 < u" by (simp add: u_def)
  have fr: "f64_round x = of_int (round_half_even (x / u)) * u"
    using pos e0 by (simp add: f64_round_def Let_def u_def e_def max_def)
  show ?thesis
  proof (cases "of_int k \<le> (2::rat) powi e")
    case True
    have "x / u \<ge> 2 powi e / u" using eb(1) u by (simp add: divide_right_mono)
    moreover have "(2::rat) powi e / u = of_int (2 ^ 52)"
      by (simp add: u_def power_int_diff)
    ultimately have "of_int (2 ^ 52) \<le> x / u" by simp
    then have "2 ^ 52 \<le> round_half_even (x / u)" by (rule round_half_even_ge)
    then have "(of_int (2 ^ 52) :: rat) \<le> of_int (round_half_even (x / u))" by (simp only: of_int_le_iff)
    then have "of_int (2 ^ 52) * u \<le> of_int (round_half_even (x / u)) * u"
      using u by (simp only: mult_le_cancel_right_pos)
    moreover have "of_int (2 ^ 52) * u = (2::rat) powi e" by (simp add: u_def power_int_diff)
    ultimately show ?thesis using True fr by simp
  next
    case False
    then have "(2::rat) powi e < of_int k" by simp
    also have "(of_int k :: rat) < of_int (2 ^ 53)" using k(2) by (simp only: of_int_less_iff)
    finally have "(2::rat) powi e < 2 powi 53" by simp
    have "e < 53"
    proof (rule ccontr)
      assume "\<not> e < 53"
      then have "53 \<le> e" by simp
      then have "(2::rat) powi 53 \<le> 2 powi e" by (intro power_int_increasing) simp_all
      with \<open>(2::rat) powi e < 2 powi 53\<close> show False by simp
    qed
    then have e52: "e \<le> 52" by simp
    define j where "j = nat (52 - e)"
    have uj: "u = 1 / 2 ^ j" using e52 by (simp add: u_def j_def power_int_def power_one_over)
    have "of_int (k * 2 ^ j) = of_int k / u" by (simp add: uj)
    also have "\<dots> \<le> x / u" using x u by (simp add: divide_right_mono)
    finally have "k * 2 ^ j \<le> round_half_even (x / u)" by (rule round_half_even_ge)
    then have "(of_int (k * 2 ^ j) :: rat) \<le> of_int (round_half_even (x / u))" by (simp only: of_int_le_iff)
    then have A: "of_int (k * 2 ^ j) * u \<le> of_int (round_half_even (x / u)) * u"
      using u by (simp only: mult_le_cancel_right_pos)
    have B: "of_int (k * 2 ^ j) * u = (of_int k :: rat)" by (simp add: uj)
    from A have "of_int k \<le> of_int (round_half_even (x / u)) * u" unfolding B .
    then show ?thesis by (simp only: fr)
  qed
qed


lemma f64_round_le:
  assumes k: "0 \<le> k" "k < 2 ^ 53" and x: "0 \<le> x" "x \<le> of_int k"
  shows "f64_round x \<le> of_int k"
proof (cases "x = 0")
  case True
  with k show ?thesis by (simp add: f64_round_def)
next
  case False
  with x have pos: "0 < x" by simp
  define e where "e = binary_exponent x"
  from binary_exponent_bounds [OF pos] have eb: "2 powi e \<le> x" "x < 2 powi (e + 1)"
    by (simp_all add: e_def)
  define e' where "e' = max e (- 1022)"
  define u :: rat where "u = 2 powi (e' - 52)"
  have u: "0 < u" by (simp add: u_def)
  have fr: "f64_round x = of_int (round_half_even (x / u)) * u"
    using pos by (simp add: f64_round_def Let_def u_def e_def e'_def)
  have "(2::rat) powi e \<le> of_int k" using eb(1) x(2) by simp
  also have "(of_int k :: rat) < of_int (2 ^ 53)" using k(2) by (simp only: of_int_less_iff)
  finally have lt: "(2::rat) powi e < 2 powi 53" by simp
  have "e < 53"
  proof (rule ccontr)
    assume "\<not> e < 53"
    then have "53 \<le> e" by simp
    then have "(2::rat) powi 53 \<le> 2 powi e" by (intro power_int_increasing) simp_all
    with lt show False by simp
  qed
  then have e52: "e' \<le> 52" by (simp add: e'_def)
  define j where "j = nat (52 - e')"
  have uj: "u = 1 / 2 ^ j" using e52 by (simp add: u_def j_def power_int_def power_one_over)
  have "x / u \<le> of_int k / u" using x u by (simp add: divide_right_mono)
  also have "of_int k / u = of_int (k * 2 ^ j)" by (simp add: uj)
  finally have "round_half_even (x / u) \<le> k * 2 ^ j" by (rule round_half_even_le)
  then have "(of_int (round_half_even (x / u)) :: rat) \<le> of_int (k * 2 ^ j)" by (simp only: of_int_le_iff)
  then have A: "of_int (round_half_even (x / u)) * u \<le> of_int (k * 2 ^ j) * u"
    using u by (simp only: mult_le_cancel_right_pos)
  have B: "of_int (k * 2 ^ j) * u = (of_int k :: rat)" by (simp add: uj)
  from A have "of_int (round_half_even (x / u)) * u \<le> of_int k" unfolding B .
  then show ?thesis by (simp only: fr)
qed

lemma f64_round_int:
  assumes "0 \<le> k" "k < 2 ^ 53"
  shows "f64_round (of_int k) = of_int k"
  using f64_round_le [OF assms, of "of_int k"] f64_round_ge [OF assms, of "of_int k"] assms by simp


section \<open>The remaining validity of a token\<close>

lemma Second_value: "Second = 1000000000"
  by (simp add: Second_def Millisecond_def Microsecond_def Nanosecond_def)

lemma wrap64_id: "- (2 ^ 63) \<le> i \<Longrightarrow> i < 2 ^ 63 \<Longrightarrow> wrap64 i = i"
  unfolding wrap64_def by (rule signed_take_bit_int_eq_self) simp_all

lemma remaining_bounds:
  fixes conv :: "float64 \<Rightarrow> int" and d :: int
  assumes d: "0 < d" "d \<le> maxDuration"
  defines "V \<equiv> float64_to_int64 conv (Finite (f64_round (Duration_Seconds d + of_int expireOffset)))"
  shows "d div Second + 3600 \<le> V" and "V \<le> d div Second + 3601"
    and "d mod Second = 0 \<Longrightarrow> V = d div Second + 3600"
proof -
  define s where "s = d div Second"
  define n where "n = d mod Second"
  have sd: "d sdiv Second = s" "d smod Second = n"
    using d by (simp_all add: s_def n_def Second_value signed_divide_int_def signed_modulo_int_def sgn_if)
  have s0: "0 \<le> s" using d by (simp add: s_def Second_value pos_imp_zdiv_nonneg_iff)
  have sU: "s \<le> 9223372036" using d by (simp add: s_def Second_value maxDuration_def) 
  have n0: "0 \<le> n" "n < 1000000000" by (simp_all add: n_def Second_value)
  have fs: "f64_round (of_int s) = of_int s" using s0 sU by (intro f64_round_int) simp_all
  have fn: "f64_round (of_int n) = of_int n" using n0 by (intro f64_round_int) simp_all
  define q :: rat where "q = f64_round (of_int n / 1000000000)"
  have q0: "0 \<le> q" unfolding q_def using n0 by (intro f64_round_nonneg) simp
  have q1: "q \<le> 1" unfolding q_def using n0 f64_round_le [of 1 "of_int n / 1000000000"] by simp
  have S: "Duration_Seconds d = f64_round (of_int s + q)"
    by (simp add: Duration_Seconds_def Let_def sd fs fn q_def)
  have Slo: "of_int s \<le> Duration_Seconds d"
    unfolding S using s0 sU q0 by (intro f64_round_ge) simp_all
  have Shi: "Duration_Seconds d \<le> of_int (s + 1)"
    unfolding S using s0 sU q0 q1 by (intro f64_round_le) simp_all
  define W where "W = f64_round (Duration_Seconds d + of_int expireOffset)"
  have Wlo: "of_int (s + 3600) \<le> W"
    unfolding W_def using s0 sU Slo by (intro f64_round_ge) (simp_all add: expireOffset_def)
  have Whi: "W \<le> of_int (s + 3601)"
    unfolding W_def using s0 sU Slo Shi by (intro f64_round_le) (simp_all add: expireOffset_def)
  have W0: "0 \<le> W" using Wlo s0 by simp
  have tlo: "s + 3600 \<le> trunc W" using Wlo W0 by (simp add: trunc_def le_floor_iff)
  have thi: "trunc W \<le> s + 3601" using Whi W0 by (simp add: trunc_def floor_le_iff)
  have V: "V = trunc W"
    using tlo thi s0 sU by (simp add: V_def float64_to_int64_def W_def [symmetric])
  show "d div Second + 3600 \<le> V" using tlo by (simp add: V s_def)
  show "V \<le> d div Second + 3601" using thi by (simp add: V s_def)
  show "V = d div Second + 3600" if "d mod Second = 0"
  proof -
    from that have "n = 0" by (simp add: n_def)
    then have "q = 0" by (simp add: q_def f64_round_def)
    then have "Duration_Seconds d = of_int s" by (simp add: S fs)
    then have "W = f64_round (of_int (s + 3600))" by (simp add: W_def expireOffset_def)
    also have "\<dots> = of_int (s + 3600)" using s0 sU by (intro f64_round_int) simp_all
    finally have "trunc W = s + 3600" using s0 by (simp add: trunc_def)
    then show ?thesis by (simp add: V s_def)
  qed
qed

lemma Time_Sub_le_max: "Time_Sub t u \<le> maxDuration"
  by (simp add: Time_Sub_def Let_def minDuration_def maxDuration_def)

lemma remaining_validity_ge: "3600 \<le> GetTokenRemainingValidity conv now keys v"
proof (cases v)
  case (GoFloat64 f)
  define d where "d = Time_Sub (time_Unix (float64_to_int64 conv f)) now"
  show ?thesis
  proof (cases "0 < d")
    case True
    have "d \<le> maxDuration" unfolding d_def by (rule Time_Sub_le_max)
    from remaining_bounds(1) [OF True this, of conv] True
    have "3600 \<le> float64_to_int64 conv (Finite (f64_round (Duration_Seconds d + of_int expireOffset)))"
      using pos_imp_zdiv_nonneg_iff [of Second d] by (simp add: Second_value)
    then show ?thesis using True by (simp add: GetTokenRemainingValidity_def GoFloat64 d_def [symmetric])
  next
    case False
    then show ?thesis by (simp add: GetTokenRemainingValidity_def GoFloat64 d_def [symmetric] expireOffset_def)
  qed
qed (simp_all add: GetTokenRemainingValidity_def expireOffset_def)

lemma remaining_validity_not_float:
  "(\<forall>f. v \<noteq> GoFloat64 f) \<Longrightarrow> GetTokenRemainingValidity conv now keys v = 3600"
  by (cases v) (simp_all add: GetTokenRemainingValidity_def expireOffset_def)

lemma Time_Unix_clock: "clock_reading now \<Longrightarrow> Time_Unix now = wall_sec now - unixToInternal"
  unfolding Time_Unix_def clock_reading_def by (rule wrap64_id) (simp_all add: unixToInternal_def)

lemma remaining_validity_in_range:
  assumes now: "clock_reading now"
    and lo: "- (2 ^ 63) \<le> trunc r" and hi: "trunc r - Time_Unix now \<le> 9223372038"
  shows "GetTokenRemainingValidity conv now keys (GoFloat64 (Finite r)) =
     (let remainer = Time_Sub \<lparr>wall_sec = trunc r + unixToInternal, wall_nsec = 0\<rparr> now
      in if 0 < remainer
         then float64_to_int64 conv (Finite (f64_round (Duration_Seconds remainer + of_int expireOffset)))
         else expireOffset)"
proof -
  have N: "Time_Unix now = wall_sec now - unixToInternal" using now by (rule Time_Unix_clock)
  have w: "wall_sec now < 2 ^ 62" using now by (simp add: clock_reading_def)
  have up: "trunc r + unixToInternal < 2 ^ 63" using hi w by (simp add: N)
  then have "trunc r < 2 ^ 63" by (simp add: unixToInternal_def)
  with lo have c: "float64_to_int64 conv (Finite r) = trunc r" by (simp add: float64_to_int64_def)
  have "wrap64 (trunc r + unixToInternal) = trunc r + unixToInternal"
    using lo up by (intro wrap64_id) (simp_all add: unixToInternal_def)
  then show ?thesis by (simp add: GetTokenRemainingValidity_def c time_Unix_def)
qed

lemma remaining_validity_past:
  assumes now: "clock_reading now"
    and lo: "- (2 ^ 63) \<le> trunc r"
    and past: "(trunc r - Time_Unix now) * 1000000000 - wall_nsec now \<le> 0"
  shows "GetTokenRemainingValidity conv now keys (GoFloat64 (Finite r)) = 3600"
proof -
  have n: "0 \<le> wall_nsec now" "wall_nsec now < 1000000000" using now by (simp_all add: clock_reading_def)
  have N: "Time_Unix now = wall_sec now - unixToInternal" using now by (rule Time_Unix_clock)
  from past n have "trunc r - Time_Unix now \<le> 0" by simp
  then have hi: "trunc r - Time_Unix now \<le> 9223372038" by simp
  have "Time_Sub \<lparr>wall_sec = trunc r + unixToInternal, wall_nsec = 0\<rparr> now \<le> 0"
    using past by (simp add: Time_Sub_def Let_def Second_value N minDuration_def maxDuration_def algebra_simps)
  then show ?thesis
    by (simp add: remaining_validity_in_range [OF now lo hi] Let_def expireOffset_def)
qed

lemma remaining_validity_future:
  fixes r :: rat and now :: Time
  defines "D \<equiv> (trunc r - Time_Unix now) * 1000000000 - wall_nsec now"
  assumes now: "clock_reading now"
    and fut: "0 < D" "D \<le> 2 ^ 63 - 1"
  shows "trunc r - Time_Unix now + 3599 \<le> GetTokenRemainingValidity conv now keys (GoFloat64 (Finite r))"
    and "GetTokenRemainingValidity conv now keys (GoFloat64 (Finite r)) \<le> trunc r - Time_Unix now + 3600"
    and "wall_nsec now = 0 \<Longrightarrow>
           GetTokenRemainingValidity conv now keys (GoFloat64 (Finite r)) = trunc r - Time_Unix now + 3600"
proof -
  define k where "k = trunc r - Time_Unix now"
  have n: "0 \<le> wall_nsec now" "wall_nsec now < 1000000000" using now by (simp_all add: clock_reading_def)
  have N: "Time_Unix now = wall_sec now - unixToInternal" using now by (rule Time_Unix_clock)
  have w: "0 \<le> wall_sec now" using now by (simp add: clock_reading_def)
  have D: "D = k * 1000000000 - wall_nsec now" by (simp add: D_def k_def)
  have k1: "1 \<le> k" using fut(1) n by (simp add: D)
  have k2: "k \<le> 9223372038" using fut(2) n by (simp add: D)
  have lo: "- (2 ^ 63) \<le> trunc r" using k1 w by (simp add: k_def N unixToInternal_def)
  have hi: "trunc r - Time_Unix now \<le> 9223372038" using k2 by (simp add: k_def)
  have sub: "Time_Sub \<lparr>wall_sec = trunc r + unixToInternal, wall_nsec = 0\<rparr> now = D"
    using fut by (simp add: Time_Sub_def Let_def Second_value N minDuration_def maxDuration_def D_def algebra_simps)
  define V where "V = float64_to_int64 conv (Finite (f64_round (Duration_Seconds D + of_int expireOffset)))"
  have G: "GetTokenRemainingValidity conv now keys (GoFloat64 (Finite r)) = V"
    using fut(1) by (simp add: remaining_validity_in_range [OF now lo hi] Let_def sub V_def)
  have dmax: "D \<le> maxDuration" using fut(2) by (simp add: maxDuration_def)
  note rb = remaining_bounds [OF fut(1) dmax, of conv, folded V_def]
  have div0: "wall_nsec now = 0 \<Longrightarrow> D div Second = k \<and> D mod Second = 0"
    by (simp add: D Second_value)
  have div1: "0 < wall_nsec now \<Longrightarrow> D div Second = k - 1"
  proof -
    assume p: "0 < wall_nsec now"
    have "D = (k - 1) * 1000000000 + (1000000000 - wall_nsec now)" by (simp add: D algebra_simps)
    moreover have "0 \<le> 1000000000 - wall_nsec now" "1000000000 - wall_nsec now < 1000000000"
      using n p by simp_all
    ultimately show ?thesis unfolding Second_value
      by (metis div_pos_pos_trivial div_mult_self3 add.commute add_0 zero_neq_numeral)
  qed
  show "trunc r - Time_Unix now + 3599 \<le> GetTokenRemainingValidity conv now keys (GoFloat64 (Finite r))"
    using rb(1) div0 div1 n(1) unfolding G k_def [symmetric] by (cases "wall_nsec now = 0") auto
  show "GetTokenRemainingValidity conv now keys (GoFloat64 (Finite r)) \<le> trunc r - Time_Unix now + 3600"
    using rb(2) rb(3) div0 div1 n(1) unfolding G k_def [symmetric] by (cases "wall_nsec now = 0") auto
  show "GetTokenRemainingValidity conv now keys (GoFloat64 (Finite r)) = trunc r - Time_Unix now + 3600"
    if "wall_nsec now = 0"
    using rb(3) div0 that unfolding G k_def [symmetric] by simp
qed

lemma remaining_validity_le: "GetTokenRemainingValidity conv now keys v \<le> 9223375637"
proof (cases v)
  case (GoFloat64 f)
  define d where "d = Time_Sub (time_Unix (float64_to_int64 conv f)) now"
  show ?thesis
  proof (cases "0 < d")
    case True
    have dm: "d \<le> maxDuration" unfolding d_def by (rule Time_Sub_le_max)
    then have "d div Second \<le> 9223372036" by (simp add: Second_value maxDuration_def)
    with remaining_bounds(2) [OF True dm, of conv]
    have "float64_to_int64 conv (Finite (f64_round (Duration_Seconds d + of_int expireOffset))) \<le> 9223375637"
      by simp
    then show ?thesis using True by (simp add: GetTokenRemainingValidity_def GoFloat64 d_def [symmetric])
  next
    case False
    then show ?thesis by (simp add: GetTokenRemainingValidity_def GoFloat64 d_def [symmetric] expireOffset_def)
  qed
qed (simp_all add: GetTokenRemainingValidity_def expireOffset_def)

text \<open>
  Claim C2, as amended. Whatever the clock reads and whatever value is passed,
  \<open>GetTokenRemainingValidity\<close> returns at least 3600, never zero or a negative number.
  A value whose dynamic type is not \<open>float64\<close> (a missing claim is \<open>nil\<close>) gives exactly
  3600, and so does a \<open>float64\<close> whose integer part fits \<open>int64\<close> and, read as Unix
  seconds, is not after the clock. A \<open>float64\<close> whose integer part \<open>E\<close> lies after the clock, by no more than
  the largest \<open>time.Duration\<close> (\<open>2\<^sup>6\<^sup>3 - 1\<close> nanoseconds, some 292 years), gives the
  whole seconds from the clock's second to \<open>E\<close> plus 3600, or one less; it gives exactly
  that sum when the clock stands on a whole second.
\<close>

theorem GetTokenRemainingValidity_amended:
  assumes "clock_reading now"
  shows "3600 \<le> GetTokenRemainingValidity conv now keys v
    \<and> ((\<forall>f. v \<noteq> GoFloat64 f) \<longrightarrow> GetTokenRemainingValidity conv now keys v = 3600)
    \<and> (\<forall>r. v = GoFloat64 (Finite r) \<and> - (2 ^ 63) \<le> trunc r
            \<and> (trunc r - Time_Unix now) * 1000000000 - wall_nsec now \<le> 0
          \<longrightarrow> GetTokenRemainingValidity conv now keys v = 3600)
    \<and> (\<forall>r. v = GoFloat64 (Finite r)
            \<and> 0 < (trunc r - Time_Unix now) * 1000000000 - wall_nsec now
            \<and> (trunc r - Time_Unix now) * 1000000000 - wall_nsec now \<le> maxDuration
          \<longrightarrow> trunc r - Time_Unix now + 3599 \<le> GetTokenRemainingValidity conv now keys v
              \<and> GetTokenRemainingValidity conv now keys v \<le> trunc r - Time_Unix now + 3600
              \<and> (wall_nsec now = 0
                   \<longrightarrow> GetTokenRemainingValidity conv now keys v = trunc r - Time_Unix now + 3600))"
proof (intro conjI allI impI)
  show "3600 \<le> GetTokenRemainingValidity conv now keys v" by (rule remaining_validity_ge)
next
  assume "\<forall>f. v \<noteq> GoFloat64 f"
  then show "GetTokenRemainingValidity conv now keys v = 3600" by (rule remaining_validity_not_float)
next
  fix r
  assume "v = GoFloat64 (Finite r) \<and> - (2 ^ 63) \<le> trunc r
            \<and> (trunc r - Time_Unix now) * 1000000000 - wall_nsec now \<le> 0"
  then show "GetTokenRemainingValidity conv now keys v = 3600"
    using remaining_validity_past [OF assms, of r conv keys] by simp
next
  fix r
  assume a: "v = GoFloat64 (Finite r)
            \<and> 0 < (trunc r - Time_Unix now) * 1000000000 - wall_nsec now
            \<and> (trunc r - Time_Unix now) * 1000000000 - wall_nsec now \<le> maxDuration"
  then have f: "0 < (trunc r - Time_Unix now) * 1000000000 - wall_nsec now"
    "(trunc r - Time_Unix now) * 1000000000 - wall_nsec now \<le> 2 ^ 63 - 1"
    by (simp_all add: maxDuration_def)
  from a have v: "v = GoFloat64 (Finite r)" by simp
  show "trunc r - Time_Unix now + 3599 \<le> GetTokenRemainingValidity conv now keys v"
    unfolding v by (rule remaining_validity_future(1) [OF assms f])
  show "GetTokenRemainingValidity conv now keys v \<le> trunc r - Time_Unix now + 3600"
    unfolding v by (rule remaining_validity_future(2) [OF assms f])
  show "GetTokenRemainingValidity conv now keys v = trunc r - Time_Unix now + 3600"
    if "wall_nsec now = 0"
    unfolding v using that by (rule remaining_validity_future(3) [OF assms f])
qed

text \<open>
  The clock at Unix second 1700000000: an expiry 100 seconds ahead gives 3700 on the
  whole second and 3699 or 3700 half a second later; a past expiry, a string, a missing
  value give 3600.
\<close>

theorem GetTokenRemainingValidity_amended_witness:
  "\<forall>conv keys.
     GetTokenRemainingValidity conv \<lparr>wall_sec = 63835596800, wall_nsec = 0\<rparr> keys
        (GoFloat64 (Finite 1700000100)) = 3700
   \<and> GetTokenRemainingValidity conv \<lparr>wall_sec = 63835596800, wall_nsec = 500000000\<rparr> keys
        (GoFloat64 (Finite 1700000100)) \<in> {3699, 3700}
   \<and> GetTokenRemainingValidity conv \<lparr>wall_sec = 63835596800, wall_nsec = 0\<rparr> keys
        (GoFloat64 (Finite 1699999000)) = 3600
   \<and> GetTokenRemainingValidity conv \<lparr>wall_sec = 63835596800, wall_nsec = 0\<rparr> keys
        (GoString ''1700000100'') = 3600
   \<and> GetTokenRemainingValidity conv \<lparr>wall_sec = 63835596800, wall_nsec = 0\<rparr> keys GoNil = 3600
   \<and> 3600 \<le> GetTokenRemainingValidity conv \<lparr>wall_sec = 63835596800, wall_nsec = 0\<rparr> keys
        (GoFloat64 NaN)"
proof (intro allI)
  fix conv :: "float64 \<Rightarrow> int" and keys :: RSAKeyPair
  define now0 :: Time where "now0 = \<lparr>wall_sec = 63835596800, wall_nsec = 0\<rparr>"
  define now1 :: Time where "now1 = \<lparr>wall_sec = 63835596800, wall_nsec = 500000000\<rparr>"
  have c0: "clock_reading now0" by (simp add: clock_reading_def now0_def)
  have c1: "clock_reading now1" by (simp add: clock_reading_def now1_def)
  have u0: "Time_Unix now0 = 1700000000"
    by (simp add: Time_Unix_clock [OF c0] unixToInternal_def) (simp add: now0_def)
  have u1: "Time_Unix now1 = 1700000000"
    by (simp add: Time_Unix_clock [OF c1] unixToInternal_def) (simp add: now1_def)
  have n0: "wall_nsec now0 = 0" by (simp add: now0_def)
  have n1: "wall_nsec now1 = 500000000" by (simp add: now1_def)
  have t: "trunc 1700000100 = 1700000100" "trunc 1699999000 = 1699999000"
    by (simp_all add: trunc_def)
  have "GetTokenRemainingValidity conv now0 keys (GoFloat64 (Finite 1700000100)) = 3700"
    using GetTokenRemainingValidity_amended [OF c0, of conv keys "GoFloat64 (Finite 1700000100)"]
    by (simp add: u0 n0 t maxDuration_def)
  moreover have "GetTokenRemainingValidity conv now1 keys (GoFloat64 (Finite 1700000100)) \<in> {3699, 3700}"
    using GetTokenRemainingValidity_amended [OF c1, of conv keys "GoFloat64 (Finite 1700000100)"]
    by (auto simp add: u1 n1 t maxDuration_def)
  moreover have "GetTokenRemainingValidity conv now0 keys (GoFloat64 (Finite 1699999000)) = 3600"
    using GetTokenRemainingValidity_amended [OF c0, of conv keys "GoFloat64 (Finite 1699999000)"]
    by (simp add: u0 n0 t)
  moreover have "GetTokenRemainingValidity conv now0 keys (GoString ''1700000100'') = 3600"
    using GetTokenRemainingValidity_amended [OF c0, of conv keys "GoString ''1700000100''"]
    by simp
  moreover have "GetTokenRemainingValidity conv now0 keys GoNil = 3600"
    using GetTokenRemainingValidity_amended [OF c0, of conv keys GoNil]
    by simp
  moreover have "3600 \<le> GetTokenRemainingValidity conv now0 keys (GoFloat64 NaN)"
    using GetTokenRemainingValidity_amended [OF c0, of conv keys "GoFloat64 NaN"]
    by simp
  ultimately show "GetTokenRemainingValidity conv \<lparr>wall_sec = 63835596800, wall_nsec = 0\<rparr> keys
        (GoFloat64 (Finite 1700000100)) = 3700
   \<and> GetTokenRemainingValidity conv \<lparr>wall_sec = 63835596800, wall_nsec = 500000000\<rparr> keys
        (GoFloat64 (Finite 1700000100)) \<in> {3699, 3700}
   \<and> GetTokenRemainingValidity conv \<lparr>wall_sec = 63835596800, wall_nsec = 0\<rparr> keys
        (GoFloat64 (Finite 1699999000)) = 3600
   \<and> GetTokenRemainingValidity conv \<lparr>wall_sec = 63835596800, wall_nsec = 0\<rparr> keys
        (GoString ''1700000100'') = 3600
   \<and> GetTokenRemainingValidity conv \<lparr>wall_sec = 63835596800, wall_nsec = 0\<rparr> keys GoNil = 3600
   \<and> 3600 \<le> GetTokenRemainingValidity conv \<lparr>wall_sec = 63835596800, wall_nsec = 0\<rparr> keys
        (GoFloat64 NaN)"
    unfolding now0_def now1_def by (intro conjI)
qed

text \<open>
  Claim C2 as stated fails for an expiry further ahead than a \<open>time.Duration\<close> can
  express: \<open>t.Sub\<close> returns the largest duration, and the result stays below
  9223375638 whatever the expiry. With the clock at Unix second 1700000000 and the
  expiry \<open>100000000000\<close>, the result is not \<open>max(expiry - now, 0) + 3600\<close>, and
  not near it: it is more than 89000000000 seconds less.
\<close>

theorem GetTokenRemainingValidity_far_future_counterexample:
  "\<forall>conv keys.
     GetTokenRemainingValidity conv \<lparr>wall_sec = 63835596800, wall_nsec = 0\<rparr> keys
        (GoFloat64 (Finite 100000000000))
       \<noteq> max (100000000000 - 1700000000) 0 + 3600
     \<and> GetTokenRemainingValidity conv \<lparr>wall_sec = 63835596800, wall_nsec = 0\<rparr> keys
        (GoFloat64 (Finite 100000000000)) + 89000000000
       < max (100000000000 - 1700000000) 0 + 3600"
proof (intro allI)
  fix conv :: "float64 \<Rightarrow> int" and keys :: RSAKeyPair
  have "GetTokenRemainingValidity conv \<lparr>wall_sec = 63835596800, wall_nsec = 0\<rparr> keys
        (GoFloat64 (Finite 100000000000)) \<le> 9223375637"
    by (rule remaining_validity_le)
  then show "GetTokenRemainingValidity conv \<lparr>wall_sec = 63835596800, wall_nsec = 0\<rparr> keys
        (GoFloat64 (Finite 100000000000))
       \<noteq> max (100000000000 - 1700000000) 0 + 3600
     \<and> GetTokenRemainingValidity conv \<lparr>wall_sec = 63835596800, wall_nsec = 0\<rparr> keys
        (GoFloat64 (Finite 100000000000)) + 89000000000
       < max (100000000000 - 1700000000) 0 + 3600"
    by simp
qed

text \<open>
  Claim C10. Only the dynamic type \<open>float64\<close> counts as a number: an expiry of dynamic
  type \<open>int64\<close> or \<open>int\<close>, however far in the future, gives exactly 3600, the same as
  a missing expiry, and so does a value of any other type.
\<close>

theorem GetTokenRemainingValidity_only_float64:
  "GetTokenRemainingValidity conv now keys (GoInt64 n) = 3600
   \<and> GetTokenRemainingValidity conv now keys (GoInt n) = 3600
   \<and> GetTokenRemainingValidity conv now keys (GoInt64 n) = GetTokenRemainingValidity conv now keys GoNil
   \<and> GetTokenRemainingValidity conv now keys (GoInt n) = GetTokenRemainingValidity conv now keys GoNil
   \<and> GetTokenRemainingValidity conv now keys GoNil = 3600
   \<and> GetTokenRemainingValidity conv now keys (GoString s) = 3600
   \<and> GetTokenRemainingValidity conv now keys (GoBool b) = 3600
   \<and> GetTokenRemainingValidity conv now keys (GoOther t) = 3600"
  by (simp add: GetTokenRemainingValidity_def expireOffset_def)

section \<open>Loading keys\<close>

lemma EncodeToString_SEQUENCE:
  "begins_with_SEQUENCE p \<Longrightarrow> \<exists>rest. EncodeToString p = CHR ''M'' # rest"
proof -
  assume "begins_with_SEQUENCE p"
  then obtain tl where p: "p = 0x30 # tl"
    by (auto simp: begins_with_SEQUENCE_def split: list.splits)
  have m: "b64char (drop_bit 2 (0x30 :: byte)) = CHR ''M''"
    by (simp add: b64char_def encodeStd_def drop_bit_eq_div)
  show ?thesis
  proof (cases tl)
    case Nil
    then show ?thesis using m by (simp add: p)
  next
    case (Cons b tl')
    then show ?thesis using m by (cases tl') (simp_all add: p)
  qed
qed

lemma base64_not_SEQUENCE:
  "begins_with_SEQUENCE p \<Longrightarrow> begins_with_SEQUENCE (bytes_of (EncodeToString p)) = False"
proof -
  assume "begins_with_SEQUENCE p"
  then obtain rest where "EncodeToString p = CHR ''M'' # rest"
    using EncodeToString_SEQUENCE by blast
  then show ?thesis by (simp add: begins_with_SEQUENCE_def bytes_of_def)
qed

text \<open>
  Claim C3 says that \<open>LoadRSAKeyPairFromBase64\<close> decodes base64 first. The code hands
  its two arguments to the parsers as they are. The base64 text of DER data begins with
  the letter \<open>M\<close>, not with the byte of a sequence, so with any parser that rejects
  data not beginning like a DER sequence, loading the base64 text of a key fails; what
  the function loads is the DER data itself.
\<close>

theorem LoadRSAKeyPairFromBase64_takes_DER:
  assumes "\<And>data. begins_with_SEQUENCE data = False \<Longrightarrow> isl (x509_ParsePKCS8PrivateKey lib data)"
    and "begins_with_SEQUENCE p"
  shows "isl (LoadRSAKeyPairFromBase64 lib (bytes_of (EncodeToString p)) publicKeyBase64)
    \<and> (\<forall>privateKey publicKey.
          x509_ParsePKCS8PrivateKey lib p = Inr (RSAPrivate privateKey)
            \<and> x509_ParsePKIXPublicKey lib q = Inr (RSAPublic publicKey)
          \<longrightarrow> LoadRSAKeyPairFromBase64 lib p q = newRSAKeyPair lib privateKey publicKey)"
proof (intro conjI allI impI)
  have "isl (x509_ParsePKCS8PrivateKey lib (bytes_of (EncodeToString p)))"
    using assms(2) by (intro assms(1) base64_not_SEQUENCE)
  then have "isl (ParseX509PKCS8PrivateKey lib (bytes_of (EncodeToString p)))"
    by (auto simp: ParseX509PKCS8PrivateKey_def split: sum.splits)
  then show "isl (LoadRSAKeyPairFromBase64 lib (bytes_of (EncodeToString p)) publicKeyBase64)"
    by (auto simp: LoadRSAKeyPairFromBase64_def split: sum.splits)
next
  fix privateKey publicKey
  assume "x509_ParsePKCS8PrivateKey lib p = Inr (RSAPrivate privateKey)
            \<and> x509_ParsePKIXPublicKey lib q = Inr (RSAPublic publicKey)"
  then show "LoadRSAKeyPairFromBase64 lib p q = newRSAKeyPair lib privateKey publicKey"
    by (simp add: LoadRSAKeyPairFromBase64_def ParseX509PKCS8PrivateKey_def ParseX509PKIXPublicKey_def)
qed

text \<open>
  With the sample library: the base64 text of the two encodings is refused, the
  encodings themselves give the key pair.
\<close>

theorem LoadRSAKeyPairFromBase64_takes_DER_witness:
  "isl (LoadRSAKeyPairFromBase64 sample_library
          (bytes_of (EncodeToString [0x30, 0x82, 0x04, 0xBE])) (bytes_of (EncodeToString [0x30, 0x82, 0x01, 0x22])))
   \<and> LoadRSAKeyPairFromBase64 sample_library [0x30, 0x82, 0x04, 0xBE] [0x30, 0x82, 0x01, 0x22]
       = Inr sample_keys"
proof -
  have a: "begins_with_SEQUENCE data = False \<Longrightarrow> isl (x509_ParsePKCS8PrivateKey sample_library data)" for data
    by (simp add: sample_library_def)
  have b: "begins_with_SEQUENCE [0x30, 0x82, 0x04, 0xBE]"
    by (simp add: begins_with_SEQUENCE_def)
  have c: "x509_ParsePKCS8PrivateKey sample_library [0x30, 0x82, 0x04, 0xBE] = Inr (RSAPrivate sample_private)
     \<and> x509_ParsePKIXPublicKey sample_library [0x30, 0x82, 0x01, 0x22] = Inr (RSAPublic (rsa_Public sample_private))"
    by (simp add: sample_library_def begins_with_SEQUENCE_def)
  have d: "newRSAKeyPair sample_library sample_private (rsa_Public sample_private) = Inr sample_keys"
    by (simp add: newRSAKeyPair_def sample_library_def sample_keys_def)
  from LoadRSAKeyPairFromBase64_takes_DER [of sample_library "[0x30, 0x82, 0x04, 0xBE]"
      "bytes_of (EncodeToString [0x30, 0x82, 0x01, 0x22])" "[0x30, 0x82, 0x01, 0x22]", OF a b] c d
  show ?thesis by simp
qed

text \<open>
  Claim C4 says that a file the detector classifies as DER is decoded. The switch of
  \<open>getDataFromKeyFile\<close> has a case for \<open>PEM\<close> and one for \<open>PKCS12\<close> only: for a
  file classified as DER it returns the unsupported-format error, and so do the
  functions that load a key from the file.
\<close>

theorem getDataFromKeyFile_rejects_DER:
  assumes "fileFormat fs file = Inr ''DER''"
  shows "getDataFromKeyFile lib fs file = Inl UnsupportedFormat
    \<and> getPrivateKey lib fs file = Inl UnsupportedFormat
    \<and> getPublicKey lib fs file = Inl UnsupportedFormat
    \<and> LoadRSAKeyPair lib fs file publicKeyPath = Inl UnsupportedFormat"
  using assms
  by (simp add: getDataFromKeyFile_def getPrivateKey_def getPublicKey_def LoadRSAKeyPair_def)

text \<open>
  A file that begins with the bytes \<open>30 82 03 00\<close> is such a file.
\<close>

theorem getDataFromKeyFile_rejects_DER_witness:
  "\<forall>lib. fileFormat [''private.der'' \<mapsto> [0x30, 0x82, 0x03, 0x00, 0x02, 0x01, 0x00]] ''private.der'' = Inr ''DER''
     \<and> getDataFromKeyFile lib [''private.der'' \<mapsto> [0x30, 0x82, 0x03, 0x00, 0x02, 0x01, 0x00]] ''private.der''
         = Inl UnsupportedFormat
     \<and> LoadRSAKeyPair lib [''private.der'' \<mapsto> [0x30, 0x82, 0x03, 0x00, 0x02, 0x01, 0x00]]
          ''private.der'' ''public.der'' = Inl UnsupportedFormat"
proof
  fix lib
  have f: "fileFormat [''private.der'' \<mapsto> [0x30, 0x82, 0x03, 0x00, 0x02, 0x01, 0x00]] ''private.der'' = Inr ''DER''"
    by (subst fileFormat_of_magic [where m = "0x30820300"]) simp_all
  from getDataFromKeyFile_rejects_DER [OF f, of lib "''public.der''"] f
  show "fileFormat [''private.der'' \<mapsto> [0x30, 0x82, 0x03, 0x00, 0x02, 0x01, 0x00]] ''private.der'' = Inr ''DER''
     \<and> getDataFromKeyFile lib [''private.der'' \<mapsto> [0x30, 0x82, 0x03, 0x00, 0x02, 0x01, 0x00]] ''private.der''
         = Inl UnsupportedFormat
     \<and> LoadRSAKeyPair lib [''private.der'' \<mapsto> [0x30, 0x82, 0x03, 0x00, 0x02, 0x01, 0x00]]
          ''private.der'' ''public.der'' = Inl UnsupportedFormat"
    by simp
qed

text \<open>
  Claim C8 says that a file without a PEM block is reported as an error. When the
  detector classifies the file as PEM and \<open>pem.Decode\<close> finds no block in it,
  \<open>decodePEM\<close> dereferences the nil block: the outcome is a panic, in \<open>decodePEM\<close> and
  in every function that loads a key through it.
\<close>

theorem decodePEM_panics_without_block:
  assumes "fs file = Some content"
    and "fileFormat fs file = Inr ''PEM''"
    and "fst (pem_Decode lib content) = None"
  shows "decodePEM lib fs file = Inl (Panic NilPointerDereference)
    \<and> getDataFromKeyFile lib fs file = Inl (Panic NilPointerDereference)
    \<and> getPrivateKey lib fs file = Inl (Panic NilPointerDereference)
    \<and> LoadRSAKeyPair lib fs file publicKeyPath = Inl (Panic NilPointerDereference)"
proof -
  have d: "decodePEM lib fs file = Inl (Panic NilPointerDereference)"
    using assms(1,3) by (auto simp: decodePEM_def split: prod.splits option.splits)
  then show ?thesis using assms(2)
    by (simp add: getDataFromKeyFile_def getPrivateKey_def LoadRSAKeyPair_def)
qed

text \<open>
  A file that begins with four dashes and holds no \<open>BEGIN\<close> line is such a file,
  whatever the libraries do.
\<close>

theorem decodePEM_panics_without_block_witness:
  "\<forall>lib. fileFormat [''private.pem'' \<mapsto> bytes_of ''---- no key here''] ''private.pem'' = Inr ''PEM''
     \<and> fst (pem_Decode lib (bytes_of ''---- no key here'')) = None
     \<and> getDataFromKeyFile lib [''private.pem'' \<mapsto> bytes_of ''---- no key here''] ''private.pem''
         = Inl (Panic NilPointerDereference)
     \<and> LoadRSAKeyPair lib [''private.pem'' \<mapsto> bytes_of ''---- no key here''] ''private.pem'' ''public.pem''
         = Inl (Panic NilPointerDereference)"
proof
  fix lib
  define content where "content = bytes_of ''---- no key here''"
  have c: "content = [0x2D, 0x2D, 0x2D, 0x2D] @ bytes_of '' no key here''"
    by (simp add: content_def bytes_of_def)
  have s: "[''private.pem'' \<mapsto> content] ''private.pem'' = Some content" by simp
  have f: "fileFormat [''private.pem'' \<mapsto> content] ''private.pem'' = Inr ''PEM''"
    unfolding c by (simp, subst fileFormat_of_magic [where m = "0x2D2D2D2D"]) simp_all
  have p: "fst (pem_Decode lib content) = None"
    by (simp add: pem_Decode_def content_def bytes_of_def pemStart_def HasPrefix_def)
  from decodePEM_panics_without_block [OF s f p, of "''public.pem''"] f p
  show "fileFormat [''private.pem'' \<mapsto> bytes_of ''---- no key here''] ''private.pem'' = Inr ''PEM''
     \<and> fst (pem_Decode lib (bytes_of ''---- no key here'')) = None
     \<and> getDataFromKeyFile lib [''private.pem'' \<mapsto> bytes_of ''---- no key here''] ''private.pem''
         = Inl (Panic NilPointerDereference)
     \<and> LoadRSAKeyPair lib [''private.pem'' \<mapsto> bytes_of ''---- no key here''] ''private.pem'' ''public.pem''
         = Inl (Panic NilPointerDereference)"
    unfolding content_def by simp
qed

section \<open>The key pair invariant\<close>

lemma newRSAKeyPair_consistent:
  assumes "newRSAKeyPair lib privateKey publicKey = Inr keys"
  shows "x509_MarshalPKCS8PrivateKey lib (PrivateKey keys) = Inr (PrivateKeyPKCS8Bytes keys)
    \<and> x509_MarshalPKIXPublicKey lib (PublicKey keys) = Inr (PublicKeyPKIXBytes keys)"
  using assms by (auto simp: newRSAKeyPair_def split: sum.splits)

lemma NewRSAKeyPair_consistent:
  assumes "NewRSAKeyPair lib = Inr keys"
  shows "x509_MarshalPKCS8PrivateKey lib (PrivateKey keys) = Inr (PrivateKeyPKCS8Bytes keys)
    \<and> x509_MarshalPKIXPublicKey lib (PublicKey keys) = Inr (PublicKeyPKIXBytes keys)"
proof -
  from assms obtain privateKey where "newRSAKeyPair lib privateKey (rsa_Public privateKey) = Inr keys"
    by (auto simp: NewRSAKeyPair_def split: sum.splits option.splits)
  then show ?thesis by (rule newRSAKeyPair_consistent)
qed

lemma LoadRSAKeyPair_consistent:
  assumes "LoadRSAKeyPair lib fs privateKeyPath publicKeyPath = Inr keys"
  shows "x509_MarshalPKCS8PrivateKey lib (PrivateKey keys) = Inr (PrivateKeyPKCS8Bytes keys)
    \<and> x509_MarshalPKIXPublicKey lib (PublicKey keys) = Inr (PublicKeyPKIXBytes keys)"
proof -
  from assms obtain privateKey publicKey where "newRSAKeyPair lib privateKey publicKey = Inr keys"
    by (auto simp: LoadRSAKeyPair_def split: sum.splits)
  then show ?thesis by (rule newRSAKeyPair_consistent)
qed

lemma LoadRSAKeyPairFromBase64_consistent:
  assumes "LoadRSAKeyPairFromBase64 lib privateKeyBase64 publicKeyBase64 = Inr keys"
  shows "x509_MarshalPKCS8PrivateKey lib (PrivateKey keys) = Inr (PrivateKeyPKCS8Bytes keys)
    \<and> x509_MarshalPKIXPublicKey lib (PublicKey keys) = Inr (PublicKeyPKIXBytes keys)"
proof -
  from assms obtain privateKey publicKey where "newRSAKeyPair lib privateKey publicKey = Inr keys"
    by (auto simp: LoadRSAKeyPairFromBase64_def split: sum.splits)
  then show ?thesis by (rule newRSAKeyPair_consistent)
qed

lemma invoke_keeps_keys: "snd (snd (invoke lib call (fs, keys))) = keys"
  by (cases call) (simp_all split: prod.splits)

text \<open>
  Claim C9. Every key pair that \<open>NewRSAKeyPair\<close>, \<open>LoadRSAKeyPair\<close> or
  \<open>LoadRSAKeyPairFromBase64\<close> returns, and every key pair that method calls leave of
  one, holds the PKCS8 encoding of its private key and the PKIX encoding of its public
  key; and a method call on it leaves the key pair as it was.
\<close>

theorem key_pair_bytes_consistent:
  assumes "reachable lib keys"
  shows "x509_MarshalPKCS8PrivateKey lib (PrivateKey keys) = Inr (PrivateKeyPKCS8Bytes keys)
    \<and> x509_MarshalPKIXPublicKey lib (PublicKey keys) = Inr (PublicKeyPKIXBytes keys)
    \<and> snd (snd (invoke lib call (fs, keys))) = keys"
proof -
  from assms
  have "x509_MarshalPKCS8PrivateKey lib (PrivateKey keys) = Inr (PrivateKeyPKCS8Bytes keys)
    \<and> x509_MarshalPKIXPublicKey lib (PublicKey keys) = Inr (PublicKeyPKIXBytes keys)"
  proof (induction rule: reachable.induct)
    case (generated keys)
    then show ?case by (rule NewRSAKeyPair_consistent)
  next
    case (loaded fs privateKeyPath publicKeyPath keys)
    then show ?case by (rule LoadRSAKeyPair_consistent)
  next
    case (loaded_base64 privateKeyBase64 publicKeyBase64 keys)
    then show ?case by (rule LoadRSAKeyPairFromBase64_consistent)
  next
    case (called keys call fs result fs' keys')
    from called.hyps(2) have "keys' = keys"
      using invoke_keeps_keys [of lib call fs keys] by simp
    with called.IH show ?case by simp
  qed
  then show ?thesis by (simp add: invoke_keeps_keys)
qed

text \<open>
  The key pair generated with the sample library, after a call of
  \<open>GetTokenSubject\<close>.
\<close>

theorem key_pair_bytes_consistent_witness:
  "reachable sample_library sample_keys
   \<and> x509_MarshalPKCS8PrivateKey sample_library (PrivateKey sample_keys)
       = Inr (PrivateKeyPKCS8Bytes sample_keys)
   \<and> x509_MarshalPKIXPublicKey sample_library (PublicKey sample_keys)
       = Inr (PublicKeyPKIXBytes sample_keys)
   \<and> snd (snd (invoke sample_library (Call_ExportRSAPublicKeyBinaryFile ''public.der'')
                  (Map.empty, sample_keys))) = sample_keys"
proof -
  have n: "NewRSAKeyPair sample_library = Inr sample_keys"
    by (simp add: NewRSAKeyPair_def newRSAKeyPair_def sample_library_def sample_keys_def)
  then have r0: "reachable sample_library sample_keys" by (rule reachable.generated)
  have "invoke sample_library (Call_GetTokenSubject ''e30.e30.c2ln'') (Map.empty, sample_keys)
      = (TextOrError (GetTokenSubject sample_library sample_keys ''e30.e30.c2ln''), Map.empty, sample_keys)"
    by simp
  with r0 have r: "reachable sample_library sample_keys" by (rule reachable.called)
  from key_pair_bytes_consistent [OF r, of "Call_ExportRSAPublicKeyBinaryFile ''public.der''" Map.empty] r
  show ?thesis by simp
qed

section \<open>Tokens\<close>

lemma Time_Add_Unix:
  assumes "clock_reading now" and d: "0 < d" "d \<le> maxDuration"
  shows "Time_Unix (Time_Add now d) = Time_Unix now + (wall_nsec now + d) div 1000000000"
proof -
  have n: "0 \<le> wall_nsec now" "wall_nsec now < 1000000000"
    and w: "0 \<le> wall_sec now" "wall_sec now < 2 ^ 62"
    using assms(1) by (simp_all add: clock_reading_def)
  define q where "q = d div 1000000000"
  define m where "m = d mod 1000000000"
  have sd: "d sdiv 1000000000 = q" "d smod 1000000000 = m"
    using d by (simp_all add: q_def m_def signed_divide_int_def signed_modulo_int_def sgn_if)
  have m: "0 \<le> m" "m < 1000000000" by (simp_all add: m_def)
  have q: "0 \<le> q" "q \<le> 9223372036" using d by (simp_all add: q_def maxDuration_def pos_imp_zdiv_nonneg_iff)
  have dq: "d = q * 1000000000 + m" by (simp add: q_def m_def)
  have carry: "(wall_nsec now + d) div 1000000000 = q + (if 1000000000 \<le> wall_nsec now + m then 1 else 0)"
  proof (cases "1000000000 \<le> wall_nsec now + m")
    case True
    then have "wall_nsec now + d = (q + 1) * 1000000000 + (wall_nsec now + m - 1000000000)"
      by (simp add: dq algebra_simps)
    moreover have "0 \<le> wall_nsec now + m - 1000000000" "wall_nsec now + m - 1000000000 < 1000000000"
      using True n m by simp_all
    ultimately have "(wall_nsec now + d) div 1000000000 = q + 1"
      by (metis div_pos_pos_trivial div_mult_self3 add.commute add_0 zero_neq_numeral)
    then show ?thesis using True by simp
  next
    case False
    have "wall_nsec now + d = q * 1000000000 + (wall_nsec now + m)" by (simp add: dq)
    moreover have "0 \<le> wall_nsec now + m" "wall_nsec now + m < 1000000000"
      using False n m by simp_all
    ultimately have "(wall_nsec now + d) div 1000000000 = q"
      by (metis div_pos_pos_trivial div_mult_self3 add.commute add_0 zero_neq_numeral)
    then show ?thesis using False by simp
  qed
  have N: "Time_Unix now = wall_sec now - unixToInternal" using assms(1) by (rule Time_Unix_clock)
  have "wall_sec (Time_Add now d) = wall_sec now + (wall_nsec now + d) div 1000000000"
    using n m by (simp add: Time_Add_def Let_def sd carry)
  moreover have "wrap64 (wall_sec now + (wall_nsec now + d) div 1000000000 - unixToInternal)
      = wall_sec now + (wall_nsec now + d) div 1000000000 - unixToInternal"
    using w q by (intro wrap64_id) (simp_all add: carry unixToInternal_def)
  moreover have "Time_Unix (Time_Add now d) = wrap64 (wall_sec (Time_Add now d) - unixToInternal)"
    by (simp only: Time_Unix_def)
  ultimately show ?thesis by (simp only: N)
qed

text \<open>
  Claim C5. For every subject, duration and signing method, the token that
  \<open>GenerateToken\<close> has signed holds exactly the claims \<open>exp\<close>, \<open>iat\<close> and \<open>sub\<close> when
  the duration is positive, and exactly \<open>sub\<close> otherwise. \<open>sub\<close> is the subject, \<open>iat\<close>
  the Unix second of the clock and \<open>exp\<close> the Unix second of the clock moved by the
  duration: the clock's Unix second plus the whole seconds in its nanoseconds and the
  duration.
\<close>

theorem GenerateToken_claims:
  "GenerateToken lib now1 now2 keys s d (Some m) =
     (case jwt_SignedString lib
             ((jwt_New m)\<lparr>Claims :=
                (if 0 < d
                 then [''exp'' \<mapsto> GoInt64 (Time_Unix (Time_Add now1 d)),
                       ''iat'' \<mapsto> GoInt64 (Time_Unix now2),
                       ''sub'' \<mapsto> GoString s]
                 else [''sub'' \<mapsto> GoString s])\<rparr>)
             (PrivateKey keys) of
        Inl err \<Rightarrow> Inl err
      | Inr tokenString \<Rightarrow> Inr tokenString)
   \<and> dom [''exp'' \<mapsto> GoInt64 (Time_Unix (Time_Add now1 d)),
           ''iat'' \<mapsto> GoInt64 (Time_Unix now2),
           ''sub'' \<mapsto> GoString s] = {''exp'', ''iat'', ''sub''}
   \<and> dom [''sub'' \<mapsto> GoString s] = {''sub''}
   \<and> (clock_reading now1 \<and> 0 < d \<and> d \<le> maxDuration
        \<longrightarrow> Time_Unix (Time_Add now1 d) = Time_Unix now1 + (wall_nsec now1 + d) div 1000000000)"
proof (intro conjI impI)
  show "GenerateToken lib now1 now2 keys s d (Some m) =
     (case jwt_SignedString lib
             ((jwt_New m)\<lparr>Claims :=
                (if 0 < d
                 then [''exp'' \<mapsto> GoInt64 (Time_Unix (Time_Add now1 d)),
                       ''iat'' \<mapsto> GoInt64 (Time_Unix now2),
                       ''sub'' \<mapsto> GoString s]
                 else [''sub'' \<mapsto> GoString s])\<rparr>)
             (PrivateKey keys) of
        Inl err \<Rightarrow> Inl err
      | Inr tokenString \<Rightarrow> Inr tokenString)"
    by (simp add: GenerateToken_def Let_def)
  show "dom [''exp'' \<mapsto> GoInt64 (Time_Unix (Time_Add now1 d)),
           ''iat'' \<mapsto> GoInt64 (Time_Unix now2),
           ''sub'' \<mapsto> GoString s] = {''exp'', ''iat'', ''sub''}"
    by auto
  show "dom [''sub'' \<mapsto> GoString s] = {''sub''}" by simp
  show "Time_Unix (Time_Add now1 d) = Time_Unix now1 + (wall_nsec now1 + d) div 1000000000"
    if "clock_reading now1 \<and> 0 < d \<and> d \<le> maxDuration"
    using that by (intro Time_Add_Unix) simp_all
qed

text \<open>
  One hour from a clock a quarter of a second past Unix second 1700000000, and the
  duration 0.
\<close>

theorem GenerateToken_claims_witness:
  "\<forall>lib keys m.
     GenerateToken lib \<lparr>wall_sec = 63835596800, wall_nsec = 250000000\<rparr>
         \<lparr>wall_sec = 63835596800, wall_nsec = 250000100\<rparr> keys ''svc1'' (3600 * 1000000000) (Some m) =
       (case jwt_SignedString lib
               ((jwt_New m)\<lparr>Claims :=
                  [''exp'' \<mapsto> GoInt64 1700003600, ''iat'' \<mapsto> GoInt64 1700000000,
                   ''sub'' \<mapsto> GoString ''svc1'']\<rparr>)
               (PrivateKey keys) of
          Inl err \<Rightarrow> Inl err
        | Inr tokenString \<Rightarrow> Inr tokenString)
   \<and> GenerateToken lib \<lparr>wall_sec = 63835596800, wall_nsec = 250000000\<rparr>
         \<lparr>wall_sec = 63835596800, wall_nsec = 250000100\<rparr> keys ''svc1'' 0 (Some m) =
       (case jwt_SignedString lib ((jwt_New m)\<lparr>Claims := [''sub'' \<mapsto> GoString ''svc1'']\<rparr>)
               (PrivateKey keys) of
          Inl err \<Rightarrow> Inl err
        | Inr tokenString \<Rightarrow> Inr tokenString)"
proof (intro allI)
  fix lib :: library and keys :: RSAKeyPair and m :: SigningMethod
  define now1 :: Time where "now1 = \<lparr>wall_sec = 63835596800, wall_nsec = 250000000\<rparr>"
  define now2 :: Time where "now2 = \<lparr>wall_sec = 63835596800, wall_nsec = 250000100\<rparr>"
  have c1: "clock_reading now1" by (simp add: clock_reading_def now1_def)
  have c2: "clock_reading now2" by (simp add: clock_reading_def now2_def)
  have u1: "Time_Unix now1 = 1700000000"
    by (simp add: Time_Unix_clock [OF c1] unixToInternal_def) (simp add: now1_def)
  have u2: "Time_Unix now2 = 1700000000"
    by (simp add: Time_Unix_clock [OF c2] unixToInternal_def) (simp add: now2_def)
  have n1: "wall_nsec now1 = 250000000" by (simp add: now1_def)
  note t = GenerateToken_claims [of lib now1 now2 keys "''svc1''" _ m]
  have e: "Time_Unix (Time_Add now1 (3600 * 1000000000)) = 1700003600"
    using t [of "3600 * 1000000000"] c1 by (simp add: u1 n1 maxDuration_def)
  have "GenerateToken lib now1 now2 keys ''svc1'' (3600 * 1000000000) (Some m) =
       (case jwt_SignedString lib
               ((jwt_New m)\<lparr>Claims :=
                  [''exp'' \<mapsto> GoInt64 1700003600, ''iat'' \<mapsto> GoInt64 1700000000,
                   ''sub'' \<mapsto> GoString ''svc1'']\<rparr>)
               (PrivateKey keys) of
          Inl err \<Rightarrow> Inl err
        | Inr tokenString \<Rightarrow> Inr tokenString)"
    using t [of "3600 * 1000000000"] e u2 by simp
  moreover have "GenerateToken lib now1 now2 keys ''svc1'' 0 (Some m) =
       (case jwt_SignedString lib ((jwt_New m)\<lparr>Claims := [''sub'' \<mapsto> GoString ''svc1'']\<rparr>)
               (PrivateKey keys) of
          Inl err \<Rightarrow> Inl err
        | Inr tokenString \<Rightarrow> Inr tokenString)"
    using t [of 0] by simp
  ultimately show "GenerateToken lib \<lparr>wall_sec = 63835596800, wall_nsec = 250000000\<rparr>
         \<lparr>wall_sec = 63835596800, wall_nsec = 250000100\<rparr> keys ''svc1'' (3600 * 1000000000) (Some m) =
       (case jwt_SignedString lib
               ((jwt_New m)\<lparr>Claims :=
                  [''exp'' \<mapsto> GoInt64 1700003600, ''iat'' \<mapsto> GoInt64 1700000000,
                   ''sub'' \<mapsto> GoString ''svc1'']\<rparr>)
               (PrivateKey keys) of
          Inl err \<Rightarrow> Inl err
        | Inr tokenString \<Rightarrow> Inr tokenString)
   \<and> GenerateToken lib \<lparr>wall_sec = 63835596800, wall_nsec = 250000000\<rparr>
         \<lparr>wall_sec = 63835596800, wall_nsec = 250000100\<rparr> keys ''svc1'' 0 (Some m) =
       (case jwt_SignedString lib ((jwt_New m)\<lparr>Claims := [''sub'' \<mapsto> GoString ''svc1'']\<rparr>)
               (PrivateKey keys) of
          Inl err \<Rightarrow> Inl err
        | Inr tokenString \<Rightarrow> Inr tokenString)"
    unfolding now1_def now2_def by (intro conjI)
qed

text \<open>
  Claim C7 says that a token without a string \<open>sub\<close> gives the missing-subject error.
  For a token that verifies, \<open>GetTokenSubject\<close> returns that error when the claim is
  absent and the subject when the claim is a string; when the claim has any other
  dynamic type the type assertion panics.
\<close>

theorem GetTokenSubject_cases:
  assumes "jwt_Parse lib tokenStr (PublicKey keys) = Inr token" and "Valid token"
  shows "(Claims token ''sub'' = None \<longrightarrow> GetTokenSubject lib keys tokenStr = Inl MissingSubjects)
    \<and> (\<forall>s. Claims token ''sub'' = Some (GoString s) \<longrightarrow> GetTokenSubject lib keys tokenStr = Inr s)
    \<and> (\<forall>v. Claims token ''sub'' = Some v \<and> (\<forall>s. v \<noteq> GoString s)
          \<longrightarrow> GetTokenSubject lib keys tokenStr = Inl (Panic (InterfaceConversion (type_name v))))"
  using assms
  by (auto simp: GetTokenSubject_def DecodeToken_def split: dyn.splits)

text \<open>
  A token whose subject is the number 42, one without a subject, and one whose
  subject is \<open>svc1\<close>.
\<close>

theorem GetTokenSubject_cases_witness:
  "GetTokenSubject sample_library sample_keys ''e30.e30.c2ln''
       = Inl (Panic (InterfaceConversion ''float64''))
   \<and> GetTokenSubject (sample_library\<lparr>jwt_Parse := \<lambda>tokenStr key. Inr (sample_token\<lparr>Claims := Map.empty\<rparr>)\<rparr>)
        sample_keys ''e30.e30.c2ln'' = Inl MissingSubjects
   \<and> GetTokenSubject
        (sample_library\<lparr>jwt_Parse := \<lambda>tokenStr key. Inr (sample_token\<lparr>Claims := [''sub'' \<mapsto> GoString ''svc1'']\<rparr>)\<rparr>)
        sample_keys ''e30.e30.c2ln'' = Inr ''svc1''"
proof -
  have p: "jwt_Parse sample_library ''e30.e30.c2ln'' (PublicKey sample_keys) = Inr sample_token"
    by (simp add: sample_library_def)
  have v: "Valid sample_token" by (simp add: sample_token_def)
  have 1: "GetTokenSubject sample_library sample_keys ''e30.e30.c2ln''
       = Inl (Panic (InterfaceConversion ''float64''))"
    using GetTokenSubject_cases [OF p v] by (simp add: sample_token_def)
  define lib2 where "lib2 = sample_library\<lparr>jwt_Parse := \<lambda>tokenStr key. Inr (sample_token\<lparr>Claims := Map.empty\<rparr>)\<rparr>"
  have p2: "jwt_Parse lib2 ''e30.e30.c2ln'' (PublicKey sample_keys) = Inr (sample_token\<lparr>Claims := Map.empty\<rparr>)"
    by (simp add: lib2_def)
  have v2: "Valid (sample_token\<lparr>Claims := Map.empty\<rparr>)" by (simp add: sample_token_def)
  have 2: "GetTokenSubject lib2 sample_keys ''e30.e30.c2ln'' = Inl MissingSubjects"
    using GetTokenSubject_cases [OF p2 v2] by simp
  define lib3 where "lib3 = sample_library\<lparr>jwt_Parse := \<lambda>tokenStr key. Inr (sample_token\<lparr>Claims := [''sub'' \<mapsto> GoString ''svc1'']\<rparr>)\<rparr>"
  have p3: "jwt_Parse lib3 ''e30.e30.c2ln'' (PublicKey sample_keys) = Inr (sample_token\<lparr>Claims := [''sub'' \<mapsto> GoString ''svc1'']\<rparr>)"
    by (simp add: lib3_def)
  have v3: "Valid (sample_token\<lparr>Claims := [''sub'' \<mapsto> GoString ''svc1'']\<rparr>)" by (simp add: sample_token_def)
  have 3: "GetTokenSubject lib3 sample_keys ''e30.e30.c2ln'' = Inr ''svc1''"
    using GetTokenSubject_cases [OF p3 v3] by simp
  from 1 2 3 show ?thesis unfolding lib2_def lib3_def by (intro conjI)
qed

section \<open>Durations\<close>

lemma Hour_value: "Hour = 3600000000000"
  by (simp add: Hour_def Minute_def Second_value)

lemma Minute_value: "Minute = 60000000000"
  by (simp add: Minute_def Second_value)

lemma period_7d: "ValidateDurationPeriod ''7d'' = Inr (168 * Hour)"
proof -
  have m: "matches_period (CHR ''d'') ''7d''"
    by (simp add: matches_period_def is_digit_def)
  have a: "Atoi ''7'' = Some 7"
    by (simp add: Atoi_def is_digit_def digit_val_def)
  have "wrap64 (7 * 24) = 168" by (rule trans [OF wrap64_id]) simp_all
  moreover have "wrap64 (168 * Hour) = 168 * Hour" by (rule wrap64_id) (simp_all add: Hour_value)
  ultimately have w: "wrap64 (wrap64 (7 * 24) * Hour) = 168 * Hour" by (simp only:)
  have b: "butlast ''7d'' = ''7''" by simp
  show ?thesis by (simp only: ValidateDurationPeriod_def m a w b if_True option.case)
qed

lemma period_2y: "ValidateDurationPeriod ''2y'' = Inr (17520 * Hour)"
proof -
  have nd: "matches_period (CHR ''d'') ''2y'' = False"
    by (simp add: matches_period_def is_digit_def)
  have m: "matches_period (CHR ''y'') ''2y''"
    by (simp add: matches_period_def is_digit_def)
  have a: "Atoi ''2'' = Some 2"
    by (simp add: Atoi_def is_digit_def digit_val_def)
  have "wrap64 (2 * 365) = 730" by (rule trans [OF wrap64_id]) simp_all
  moreover have "wrap64 (730 * 24) = 17520" by (rule trans [OF wrap64_id]) simp_all
  moreover have "wrap64 (17520 * Hour) = 17520 * Hour" by (rule wrap64_id) (simp_all add: Hour_value)
  ultimately have w: "wrap64 (wrap64 (wrap64 (2 * 365) * 24) * Hour) = 17520 * Hour" by (simp only:)
  have b: "butlast ''2y'' = ''2''" by simp
  show ?thesis by (simp only: ValidateDurationPeriod_def nd m a w b if_True if_False option.case)
qed

lemma period_90m: "ValidateDurationPeriod ''90m'' = Inl (InvalidDuration ''90m'')"
  by (simp add: ValidateDurationPeriod_def matches_period_def is_digit_def)

lemma period_abc: "ValidateDurationPeriod ''abc'' = Inl (InvalidDuration ''abc'')"
  by (simp add: ValidateDurationPeriod_def matches_period_def is_digit_def)

lemma general_90m: "ParseDuration ''90m'' = Inr (90 * Minute)"
proof -
  have li: "leadingInt 0 ''90m'' = Some (90, ''m'')"
    by (simp add: is_digit_def digit_val_def Let_def)
  have rf: "read_fraction ''m'' = (0, 1, False, ''m'')"
    by (simp add: read_fraction_def)
  have seg: "parse_segment ''90m'' ''90m'' = Inr (5400000000000, [])"
    by (simp add: parse_segment_def li rf is_num_char_def is_digit_def unit_char_def unitMap_def Let_def
        del: leadingInt.simps)
  have loop: "parse_loop ''90m'' 0 ''90m'' = Inr 5400000000000"
    by (subst parse_loop.simps, simp add: seg Let_def del: parse_loop.simps)
      (subst parse_loop.simps, simp del: parse_loop.simps)
  show ?thesis
    by (simp add: ParseDuration_def Let_def loop Minute_value del: parse_loop.simps)
qed

lemma general_abc: "ParseDuration ''abc'' = Inl (TimeInvalidDuration ''abc'')"
proof -
  have seg: "parse_segment ''abc'' ''abc'' = Inl (TimeInvalidDuration ''abc'')"
    by (simp add: parse_segment_def is_num_char_def is_digit_def)
  have loop: "parse_loop ''abc'' 0 ''abc'' = Inl (TimeInvalidDuration ''abc'')"
    by (subst parse_loop.simps) (simp add: seg del: parse_loop.simps)
  show ?thesis
    by (simp add: ParseDuration_def Let_def loop del: parse_loop.simps)
qed

lemma lower_trim_plain:
  "strings_TrimSpace U (strings_ToLower U ''7d'') = ''7d''"
  "strings_TrimSpace U (strings_ToLower U ''2y'') = ''2y''"
  "strings_TrimSpace U (strings_ToLower U ''90m'') = ''90m''"
  "strings_TrimSpace U (strings_ToLower U ''abc'') = ''abc''"
  by (simp_all add: strings_TrimSpace_def strings_ToLower_def is_ascii_def lower_ascii_def asciiSpace_def
      char_of_eq_iff)

lemma SigMethod_RS256: "SigMethod U ''RS256'' = Some RS256"
  by (simp add: SigMethod_def strings_ToLower_def is_ascii_def lower_ascii_def char_of_eq_iff)

text \<open>
  Claim C6. The day and year grammar is tried first and the general grammar after it:
  \<open>7d\<close> is 168 hours and \<open>2y\<close> is 17520 hours; \<open>90m\<close> fails the first grammar and is
  90 minutes by the general one; \<open>abc\<close> fails both, and the error is an invalid
  duration.
\<close>

theorem duration_grammars:
  "ValidateDurationPeriod ''7d'' = Inr (168 * Hour)
   \<and> ValidateDurationPeriod ''2y'' = Inr (17520 * Hour)
   \<and> ValidateDurationPeriod ''90m'' = Inl (InvalidDuration ''90m'')
   \<and> ParseDuration ''90m'' = Inr (90 * Minute)
   \<and> ValidateDurationPeriod ''abc'' = Inl (InvalidDuration ''abc'')
   \<and> ParseDuration ''abc'' = Inl (TimeInvalidDuration ''abc'')
   \<and> ValidateClaims U ''7d'' ''RS256'' = Inr (168 * Hour, RS256)
   \<and> ValidateClaims U ''2y'' ''RS256'' = Inr (17520 * Hour, RS256)
   \<and> ValidateClaims U ''90m'' ''RS256'' = Inr (90 * Minute, RS256)
   \<and> ValidateClaims U ''abc'' ''RS256'' = Inl (TimeInvalidDuration ''abc'')"
  by (simp only: ValidateClaims_def Let_def lower_trim_plain period_7d period_2y period_90m
      period_abc general_90m general_abc SigMethod_RS256 sum.case option.case simp_thms)

end
